theory Spec2Isabelle
  imports Main "HOL-Library.AList"
begin

section \<open>The WebSocket manager of backend/app/services/websocket_manager.py\<close>

text \<open>
  The manager keeps five dictionaries keyed by request id. A Python dictionary is an
  association list here: \<open>map_of d k\<close> is the lookup, \<open>AList.update k v d\<close> is
  \<^verbatim>\<open>d[k] = v\<close> (in place when the key is there, appended otherwise, as Python keeps
  insertion order), \<open>AList.delete k d\<close> is \<^verbatim>\<open>del d[k]\<close> and \<open>map fst d\<close> is
  \<^verbatim>\<open>d.keys()\<close>.

  The calls run one after the other: an operation is modelled from its first statement to
  its return with nothing interleaved at an \<^verbatim>\<open>await\<close>.
\<close>

subsection \<open>Data\<close>

type_synonym 'v dict = "(string \<times> 'v) list"

text \<open>An instant (\<^verbatim>\<open>datetime\<close>) in microseconds; a \<^verbatim>\<open>timedelta\<close> is a difference of two.\<close>

type_synonym time = int

text \<open>The identity of a WebSocket object, and the address of a message dictionary.\<close>

type_synonym ws = nat
type_synonym ref = nat

text \<open>
  The values a message carries. \<open>JIso t\<close> stands for the string
  \<^verbatim>\<open>t.isoformat()\<close> of the instant \<open>t\<close>.
\<close>

datatype jval = JInt int | JStr string | JIso time | JObj "(string \<times> jval) list"

type_synonym message = "jval dict"

text \<open>
  The exceptions: the two kinds a transport call raises, Python's TypeError, and the
  OverflowError of a \<^verbatim>\<open>timedelta\<close> out of range.
\<close>

datatype exn = WebSocketDisconnect | TransportError | TypeError | OverflowError

text \<open>A call on a WebSocket object.\<close>

datatype call = Accept ws | Send_json ws message | Close ws

text \<open>
  The metadata dictionary that \<^verbatim>\<open>connect\<close> builds, with its four keys.
\<close>

record metadata =
  user_id :: string
  connected_at :: time
  last_heartbeat :: time
  reconnection_count :: int

text \<open>
  The manager's five dictionaries, and around them what the code touches:
  \<^item> \<open>heap\<close>: the message dictionaries by address (\<^verbatim>\<open>send_message\<close> writes the
    message id into the dictionary it is given, and the queue holds that same object);
  \<^item> \<open>next_ref\<close>: the first address not yet given to a dictionary;
  \<^item> \<open>wire\<close>: every call made on a WebSocket so far, oldest first, with what it raised;
  \<^item> \<open>faults\<close>: what the coming WebSocket calls raise, in order (\<open>None\<close>: the call returns;
    past the end of the list every call returns).
\<close>

record world =
  active_connections :: "ws dict"
  connection_metadata :: "metadata dict"
  message_queue :: "ref list dict"
  last_ack :: "int dict"
  message_counters :: "int dict"
  heap :: "ref \<Rightarrow> message"
  next_ref :: ref
  wire :: "(call \<times> exn option) list"
  faults :: "exn option list"

definition init :: "exn option list \<Rightarrow> world" where
  "init fs = \<lparr>active_connections = [], connection_metadata = [], message_queue = [],
     last_ack = [], message_counters = [], heap = (\<lambda>_. []), next_ref = 0, wire = [],
     faults = fs\<rparr>"

subsection \<open>Dictionaries, the clock, the transport\<close>

definition has_key :: "'v dict \<Rightarrow> string \<Rightarrow> bool" where
  "has_key d k = (map_of d k \<noteq> None)"

definition dict_get :: "'v dict \<Rightarrow> string \<Rightarrow> 'v \<Rightarrow> 'v" where
  "dict_get d k dflt = (case map_of d k of None \<Rightarrow> dflt | Some v \<Rightarrow> v)"

text \<open>
  \<^verbatim>\<open>timedelta(hours=h)\<close>: Python brings the value to days, seconds and microseconds
  (the days are \<open>h div 24\<close>, rounded down) and raises OverflowError when the days are
  beyond 999999999 in magnitude. The first hours refused are 24000000000 and
  -23999999977.
\<close>

definition timedelta_hours :: "int \<Rightarrow> exn + time" where
  "timedelta_hours h =
     (if h div 24 < - 999999999 \<or> 999999999 < h div 24 then Inl OverflowError
      else Inr (h * 3600000000))"

definition timedelta_minutes :: "int \<Rightarrow> time" where
  "timedelta_minutes m = m * 60000000"

text \<open>A new dictionary object: \<^verbatim>\<open>{...}\<close> in the source.\<close>

definition new_dict :: "message \<Rightarrow> world \<Rightarrow> ref \<times> world" where
  "new_dict m s = (next_ref s, s\<lparr>heap := (heap s)(next_ref s := m), next_ref := Suc (next_ref s)\<rparr>)"

text \<open>
  \<^verbatim>\<open>await websocket.accept()\<close>, \<^verbatim>\<open>send_json(...)\<close>, \<^verbatim>\<open>close()\<close>: the call is
  logged, and it raises what the head of \<open>faults\<close> says.
\<close>

definition raised :: "world \<Rightarrow> exn option" where
  "raised s = (case faults s of [] \<Rightarrow> None | f # _ \<Rightarrow> f)"

definition transport :: "call \<Rightarrow> world \<Rightarrow> (exn + unit) \<times> world" where
  "transport c s =
     (let out = raised s;
          s' = s\<lparr>wire := wire s @ [(c, out)], faults := tl (faults s)\<rparr>
      in (case out of None \<Rightarrow> Inr () | Some e \<Rightarrow> Inl e, s'))"

subsection \<open>disconnect\<close>

text \<open>
  \<^verbatim>\<open>
  if request_id in self.active_connections:
      try:
          websocket = self.active_connections[request_id]
          await websocket.close()
      except Exception as e:
          logger.warning(...)
      del self.active_connections[request_id]
  \<close>
\<close>

definition disconnect :: "string \<Rightarrow> world \<Rightarrow> (exn + unit) \<times> world" where
  "disconnect request_id s =
     (case map_of (active_connections s) request_id of
        None \<Rightarrow> (Inr (), s)
      | Some websocket \<Rightarrow>
          (case transport (Close websocket) s of
             (Inr _, s1) \<Rightarrow>
               (Inr (), s1\<lparr>active_connections := AList.delete request_id (active_connections s1)\<rparr>)
           | (Inl e, s1) \<Rightarrow>
               (Inr (), s1\<lparr>active_connections := AList.delete request_id (active_connections s1)\<rparr>)))"

subsection \<open>\_queue\_message\<close>

definition queue_message :: "string \<Rightarrow> ref \<Rightarrow> world \<Rightarrow> world" where
  "queue_message request_id message s =
     (let q = (if \<not> has_key (message_queue s) request_id
               then AList.update request_id [] (message_queue s) else message_queue s)
      in s\<lparr>message_queue := AList.update request_id (dict_get q request_id [] @ [message]) q\<rparr>)"

subsection \<open>send\_message\<close>

text \<open>
  \<^verbatim>\<open>
  self.message_counters[request_id] = self.message_counters.get(request_id, 0) + 1
  message["message_id"] = self.message_counters[request_id]
  if request_id in self.active_connections:
      websocket = self.active_connections[request_id]
      try:
          await websocket.send_json(message); return True
      except WebSocketDisconnect:
          await self.disconnect(request_id)
          self._queue_message(request_id, message); return False
      except Exception as e:
          await self.disconnect(request_id)
          self._queue_message(request_id, message); return False
  else:
      self._queue_message(request_id, message); return False
  \<close>
  \<open>message\<close> is the address of the caller's dictionary.
\<close>

definition send_message :: "string \<Rightarrow> ref \<Rightarrow> world \<Rightarrow> (exn + bool) \<times> world" where
  "send_message request_id message s =
     (let n = dict_get (message_counters s) request_id 0 + 1;
          s1 = s\<lparr>message_counters := AList.update request_id n (message_counters s)\<rparr>;
          s2 = s1\<lparr>heap := (heap s1)(message := AList.update ''message_id'' (JInt n) (heap s1 message))\<rparr>
      in case map_of (active_connections s2) request_id of
           Some websocket \<Rightarrow>
             (case transport (Send_json websocket (heap s2 message)) s2 of
                (Inr _, s3) \<Rightarrow> (Inr True, s3)
              | (Inl WebSocketDisconnect, s3) \<Rightarrow>
                  (case disconnect request_id s3 of
                     (Inl e, s4) \<Rightarrow> (Inl e, s4)
                   | (Inr _, s4) \<Rightarrow> (Inr False, queue_message request_id message s4))
              | (Inl _, s3) \<Rightarrow>
                  (case disconnect request_id s3 of
                     (Inl e, s4) \<Rightarrow> (Inl e, s4)
                   | (Inr _, s4) \<Rightarrow> (Inr False, queue_message request_id message s4)))
         | None \<Rightarrow> (Inr False, queue_message request_id message s2))"

subsection \<open>broadcast\_progress\<close>

definition broadcast_progress ::
    "string \<Rightarrow> string \<Rightarrow> jval \<Rightarrow> time \<Rightarrow> world \<Rightarrow> (exn + bool) \<times> world" where
  "broadcast_progress request_id event_type data now s =
     (case new_dict [(''type'', JStr event_type), (''timestamp'', JIso now), (''data'', data)] s of
        (message, s1) \<Rightarrow> send_message request_id message s1)"

subsection \<open>\_replay\_queued\_messages\<close>

text \<open>
  \<^verbatim>\<open>msg.get("message_id", 0) > last_ack_id\<close>: an absent id counts as 0; an id that is
  not a number cannot be compared with an \<^verbatim>\<open>int\<close> and Python raises TypeError.
\<close>

definition unacknowledged :: "message \<Rightarrow> int \<Rightarrow> exn + bool" where
  "unacknowledged msg last_ack_id =
     (case map_of msg ''message_id'' of
        None \<Rightarrow> Inr (0 > last_ack_id)
      | Some (JInt n) \<Rightarrow> Inr (n > last_ack_id)
      | Some _ \<Rightarrow> Inl TypeError)"

text \<open>The list comprehension \<^verbatim>\<open>[msg for msg in queued_messages if ...]\<close>.\<close>

fun messages_to_replay :: "(ref \<Rightarrow> message) \<Rightarrow> int \<Rightarrow> ref list \<Rightarrow> exn + ref list" where
  "messages_to_replay h last_ack_id [] = Inr []"
| "messages_to_replay h last_ack_id (msg # queued) =
     (case unacknowledged (h msg) last_ack_id of
        Inl e \<Rightarrow> Inl e
      | Inr keep \<Rightarrow>
          (case messages_to_replay h last_ack_id queued of
             Inl e \<Rightarrow> Inl e
           | Inr rest \<Rightarrow> Inr (if keep then msg # rest else rest)))"

text \<open>
  \<^verbatim>\<open>
  for message in messages_to_replay:
      if request_id in self.active_connections:
          try:
              await self.active_connections[request_id].send_json(message)
          except Exception as e:
              logger.error(...)
              break
  \<close>
\<close>

fun replay_loop :: "string \<Rightarrow> ref list \<Rightarrow> world \<Rightarrow> world" where
  "replay_loop request_id [] s = s"
| "replay_loop request_id (message # rest) s =
     (case map_of (active_connections s) request_id of
        None \<Rightarrow> replay_loop request_id rest s
      | Some websocket \<Rightarrow>
          (case transport (Send_json websocket (heap s message)) s of
             (Inl e, s1) \<Rightarrow> s1
           | (Inr _, s1) \<Rightarrow> replay_loop request_id rest s1))"

definition replay_queued_messages :: "string \<Rightarrow> world \<Rightarrow> (exn + unit) \<times> world" where
  "replay_queued_messages request_id s =
     (case map_of (message_queue s) request_id of
        None \<Rightarrow> (Inr (), s)
      | Some queued_messages \<Rightarrow>
          (let last_ack_id = dict_get (last_ack s) request_id 0
           in case messages_to_replay (heap s) last_ack_id queued_messages of
                Inl e \<Rightarrow> (Inl e, s)
              | Inr to_replay \<Rightarrow>
                  if to_replay \<noteq> [] then
                    (let s1 = replay_loop request_id to_replay s
                     in (Inr (), s1\<lparr>message_queue := AList.update request_id [] (message_queue s1)\<rparr>))
                  else (Inr (), s)))"

subsection \<open>connect\<close>

text \<open>
  \<^verbatim>\<open>
  try:
      await websocket.accept()
      self.active_connections[request_id] = websocket
      self.connection_metadata[request_id] = {
          "user_id": user_id, "connected_at": datetime.utcnow(),
          "last_heartbeat": datetime.utcnow(), "reconnection_count": 0}
      if request_id not in self.message_counters:
          self.message_counters[request_id] = 0
      if request_id not in self.last_ack:
          self.last_ack[request_id] = 0
      await self.send_message(request_id, {"type": "connection_established", ...})
      await self._replay_queued_messages(request_id)
  except Exception as e:
      logger.error(...)
      raise
  \<close>
  The three readings of the clock are the parameters \<open>t1\<close>, \<open>t2\<close>, \<open>t3\<close>.
\<close>

definition connect ::
    "string \<Rightarrow> ws \<Rightarrow> string \<Rightarrow> time \<Rightarrow> time \<Rightarrow> time \<Rightarrow> world \<Rightarrow> (exn + unit) \<times> world" where
  "connect request_id websocket uid t1 t2 t3 s =
     (case transport (Accept websocket) s of
        (Inl e, s1) \<Rightarrow> (Inl e, s1)
      | (Inr _, s1) \<Rightarrow>
          (let s2 = s1\<lparr>active_connections := AList.update request_id websocket (active_connections s1)\<rparr>;
               s3 = s2\<lparr>connection_metadata := AList.update request_id
                      \<lparr>user_id = uid, connected_at = t1, last_heartbeat = t2, reconnection_count = 0\<rparr>
                      (connection_metadata s2)\<rparr>;
               s4 = (if \<not> has_key (message_counters s3) request_id
                     then s3\<lparr>message_counters := AList.update request_id 0 (message_counters s3)\<rparr>
                     else s3);
               s5 = (if \<not> has_key (last_ack s4) request_id
                     then s4\<lparr>last_ack := AList.update request_id 0 (last_ack s4)\<rparr>
                     else s4)
           in case new_dict [(''type'', JStr ''connection_established''), (''timestamp'', JIso t3),
                     (''data'', JObj [(''request_id'', JStr request_id),
                        (''message'', JStr ''WebSocket connection established'')])] s5 of
                (message, s6) \<Rightarrow>
                  (case send_message request_id message s6 of
                     (Inl e, s7) \<Rightarrow> (Inl e, s7)
                   | (Inr _, s7) \<Rightarrow> replay_queued_messages request_id s7)))"

subsection \<open>acknowledge\_message\<close>

definition acknowledge_message :: "string \<Rightarrow> int \<Rightarrow> world \<Rightarrow> world" where
  "acknowledge_message request_id message_id s =
     s\<lparr>last_ack := AList.update request_id
          (max (dict_get (last_ack s) request_id 0) message_id) (last_ack s)\<rparr>"

subsection \<open>heartbeat\_loop\<close>

text \<open>The frame \<^verbatim>\<open>{"type": "heartbeat", "timestamp": current_time.isoformat()}\<close>.\<close>

definition heartbeat_frame :: "time \<Rightarrow> message" where
  "heartbeat_frame current_time = [(''type'', JStr ''heartbeat''), (''timestamp'', JIso current_time)]"

text \<open>
  The body of \<^verbatim>\<open>for request_id in request_ids\<close>. An exception that leaves the body
  leaves the \<^verbatim>\<open>for\<close> loop too (the \<^verbatim>\<open>try\<close> is around the whole round).
\<close>

definition heartbeat_one :: "time \<Rightarrow> string \<Rightarrow> world \<Rightarrow> (exn + unit) \<times> world" where
  "heartbeat_one current_time request_id s =
     (case map_of (connection_metadata s) request_id of
        None \<Rightarrow> (Inr (), s)
      | Some md \<Rightarrow>
          if current_time - last_heartbeat md > timedelta_minutes 5 then disconnect request_id s
          else
            (case map_of (active_connections s) request_id of
               None \<Rightarrow> (Inr (), s)
             | Some websocket \<Rightarrow>
                 (case transport (Send_json websocket (heartbeat_frame current_time)) s of
                    (Inr _, s1) \<Rightarrow>
                      (Inr (), s1\<lparr>connection_metadata := AList.update request_id
                                   (md\<lparr>last_heartbeat := current_time\<rparr>) (connection_metadata s1)\<rparr>)
                  | (Inl WebSocketDisconnect, s1) \<Rightarrow> disconnect request_id s1
                  | (Inl _, s1) \<Rightarrow> disconnect request_id s1)))"

fun heartbeat_for :: "time \<Rightarrow> string list \<Rightarrow> world \<Rightarrow> (exn + unit) \<times> world" where
  "heartbeat_for current_time [] s = (Inr (), s)"
| "heartbeat_for current_time (request_id # request_ids) s =
     (case heartbeat_one current_time request_id s of
        (Inl e, s1) \<Rightarrow> (Inl e, s1)
      | (Inr _, s1) \<Rightarrow> heartbeat_for current_time request_ids s1)"

text \<open>
  One turn of \<^verbatim>\<open>while True\<close>: sleep, read the clock, visit the keys of
  \<^verbatim>\<open>active_connections\<close> as they are at that moment; an exception is logged and the
  loop goes on.
\<close>

definition heartbeat_round :: "time \<Rightarrow> world \<Rightarrow> world" where
  "heartbeat_round current_time s =
     (case heartbeat_for current_time (map fst (active_connections s)) s of
        (Inl e, s1) \<Rightarrow> s1
      | (Inr _, s1) \<Rightarrow> s1)"

text \<open>
  The loop never returns; the model runs one round for each reading of the clock in the
  list it is given.
\<close>

fun heartbeat_loop :: "time list \<Rightarrow> world \<Rightarrow> world" where
  "heartbeat_loop [] s = s"
| "heartbeat_loop (current_time # later) s = heartbeat_loop later (heartbeat_round current_time s)"

subsection \<open>cleanup\_old\_data\<close>

text \<open>
  \<^verbatim>\<open>
  for request_id, metadata in self.connection_metadata.items():
      if request_id not in self.active_connections:
          connected_at = metadata.get("connected_at")
          if connected_at and (current_time - connected_at) > max_age:
              request_ids_to_remove.append(request_id)
  \<close>
  A \<^verbatim>\<open>datetime\<close> is always true in a condition.
\<close>

definition request_ids_to_remove :: "time \<Rightarrow> time \<Rightarrow> world \<Rightarrow> string list" where
  "request_ids_to_remove max_age current_time s =
     map fst (filter (\<lambda>(request_id, md).
         \<not> has_key (active_connections s) request_id \<and>
         current_time - connected_at md > max_age)
       (connection_metadata s))"

text \<open>
  \<^verbatim>\<open>
  del self.connection_metadata[request_id]
  if request_id in self.message_queue: del self.message_queue[request_id]
  if request_id in self.last_ack: del self.last_ack[request_id]
  if request_id in self.message_counters: del self.message_counters[request_id]
  \<close>
\<close>

definition remove_request :: "string \<Rightarrow> world \<Rightarrow> world" where
  "remove_request request_id s =
     (let s1 = s\<lparr>connection_metadata := AList.delete request_id (connection_metadata s)\<rparr>;
          s2 = (if has_key (message_queue s1) request_id
                then s1\<lparr>message_queue := AList.delete request_id (message_queue s1)\<rparr> else s1);
          s3 = (if has_key (last_ack s2) request_id
                then s2\<lparr>last_ack := AList.delete request_id (last_ack s2)\<rparr> else s2)
      in (if has_key (message_counters s3) request_id
          then s3\<lparr>message_counters := AList.delete request_id (message_counters s3)\<rparr> else s3))"

text \<open>
  \<^verbatim>\<open>
  current_time = datetime.utcnow()
  max_age = timedelta(hours=max_age_hours)
  \<close>
  and then the two loops. When the \<^verbatim>\<open>timedelta\<close> raises, nothing has been removed.
\<close>

definition cleanup_old_data :: "int \<Rightarrow> time \<Rightarrow> world \<Rightarrow> (exn + unit) \<times> world" where
  "cleanup_old_data max_age_hours current_time s =
     (case timedelta_hours max_age_hours of
        Inl e \<Rightarrow> (Inl e, s)
      | Inr max_age \<Rightarrow>
          (Inr (), fold remove_request (request_ids_to_remove max_age current_time s) s))"

subsection \<open>The endpoint of backend/app/api/websocket.py\<close>

text \<open>
  The endpoint calls \<^verbatim>\<open>connect\<close>, then for each frame of the client
  \<^verbatim>\<open>acknowledge_message\<close> (\<^verbatim>\<open>ack\<close>) or \<^verbatim>\<open>_replay_queued_messages\<close>
  (\<^verbatim>\<open>reconnect\<close>), and in the end \<^verbatim>\<open>disconnect\<close>. On \<^verbatim>\<open>heartbeat_response\<close> it
  writes into the manager's metadata itself:
  \<^verbatim>\<open>
  if request_id in websocket_manager.connection_metadata:
      websocket_manager.connection_metadata[request_id]["last_heartbeat"] = datetime.utcnow()
  \<close>
\<close>

definition heartbeat_response :: "string \<Rightarrow> time \<Rightarrow> world \<Rightarrow> world" where
  "heartbeat_response request_id now s =
     (case map_of (connection_metadata s) request_id of
        None \<Rightarrow> s
      | Some md \<Rightarrow> s\<lparr>connection_metadata :=
          AList.update request_id (md\<lparr>last_heartbeat := now\<rparr>) (connection_metadata s)\<rparr>)"

section \<open>What the statements below speak of\<close>

text \<open>
  \<^verbatim>\<open>msg.get("message_id", 0)\<close> where it is a number: the sequence number a message
  carries.
\<close>

definition seq_no :: "message \<Rightarrow> int" where
  "seq_no msg = (case map_of msg ''message_id'' of Some (JInt n) \<Rightarrow> n | _ \<Rightarrow> 0)"

text \<open>A message whose id, if it has one, is a number: the comparison with the mark does not raise.\<close>

definition comparable :: "message \<Rightarrow> bool" where
  "comparable msg = (case map_of msg ''message_id'' of None \<Rightarrow> True | Some (JInt n) \<Rightarrow> True | Some _ \<Rightarrow> False)"

text \<open>A queue whose messages have numbers as ids, in strictly ascending order.\<close>

definition ascending :: "(ref \<Rightarrow> message) \<Rightarrow> ref list \<Rightarrow> bool" where
  "ascending h q =
     (list_all (\<lambda>m. comparable (h m)) q \<and> sorted_wrt (\<lambda>a b. seq_no (h a) < seq_no (h b)) q)"

text \<open>
  The messages of a list that are handed to the transport, each with what the call raised,
  when the calls raise what \<open>fs\<close> says: all of them up to and including the first whose
  call raises.
\<close>

fun attempts :: "exn option list \<Rightarrow> 'a list \<Rightarrow> ('a \<times> exn option) list" where
  "attempts fs [] = []"
| "attempts [] (m # ms) = (m, None) # attempts [] ms"
| "attempts (None # fs) (m # ms) = (m, None) # attempts fs ms"
| "attempts (Some e # fs) (m # ms) = [(m, Some e)]"

text \<open>The WebSocket a call is made on.\<close>

fun call_ws :: "call \<Rightarrow> ws" where
  "call_ws (Accept w) = w"
| "call_ws (Send_json w m) = w"
| "call_ws (Close w) = w"

text \<open>The calls an operation made: those on the wire of \<open>s'\<close> after those of \<open>s\<close>.\<close>

definition calls_since :: "world \<Rightarrow> world \<Rightarrow> (call \<times> exn option) list" where
  "calls_since s s' = drop (length (wire s)) (wire s')"

text \<open>The dictionary at \<open>m\<close> is in no queue.\<close>

definition unqueued :: "ref \<Rightarrow> world \<Rightarrow> bool" where
  "unqueued m s = list_all (\<lambda>(request_id, q). m \<notin> set q) (message_queue s)"

text \<open>
  A queue of allocated dictionaries (addresses below \<open>nxt\<close>), each with a number as its
  id, none above \<open>c\<close>, in strictly ascending order of id.
\<close>

definition well_numbered :: "(ref \<Rightarrow> message) \<Rightarrow> ref \<Rightarrow> int \<Rightarrow> ref list \<Rightarrow> bool" where
  "well_numbered h nxt c q =
     (list_all (\<lambda>m. m < nxt \<and>
          (case map_of (h m) ''message_id'' of Some (JInt n) \<Rightarrow> n \<le> c | _ \<Rightarrow> False)) q
      \<and> sorted_wrt (\<lambda>a b. seq_no (h a) < seq_no (h b)) q)"

text \<open>Every queue is so, with the counter of its session as the bound.\<close>

definition numbered :: "world \<Rightarrow> bool" where
  "numbered s = list_all (\<lambda>(request_id, q).
       well_numbered (heap s) (next_ref s) (dict_get (message_counters s) request_id 0) q)
     (message_queue s)"

text \<open>
  Every queue holds allocated dictionaries, each with a number as its id.
\<close>

definition identified :: "world \<Rightarrow> bool" where
  "identified s = list_all (\<lambda>(request_id, q).
       list_all (\<lambda>m. m < next_ref s \<and>
          (case map_of (heap s m) ''message_id'' of Some (JInt n) \<Rightarrow> True | _ \<Rightarrow> False)) q)
     (message_queue s)"

text \<open>
  The states the manager gets into from its initial state, whatever the transport does,
  when the caller builds its dictionaries with \<open>new_dict\<close> and hands them to
  \<^verbatim>\<open>send_message\<close>. With \<open>own = True\<close> the caller hands \<^verbatim>\<open>send_message\<close> only
  dictionaries that are in no queue (as \<^verbatim>\<open>broadcast_progress\<close> and \<^verbatim>\<open>connect\<close>
  do); with \<open>own = False\<close> it hands it any dictionary it has built. The code does not
  check which.
\<close>

inductive reachable :: "bool \<Rightarrow> world \<Rightarrow> bool" where
  r_init: "reachable own (init fs)"
| r_new_dict: "reachable own s \<Longrightarrow> reachable own (snd (new_dict msg s))"
| r_connect: "reachable own s \<Longrightarrow>
     reachable own (snd (connect request_id websocket uid t1 t2 t3 s))"
| r_disconnect: "reachable own s \<Longrightarrow> reachable own (snd (disconnect request_id s))"
| r_send_message: "reachable own s \<Longrightarrow> m < next_ref s \<Longrightarrow> (own \<longrightarrow> unqueued m s) \<Longrightarrow>
     reachable own (snd (send_message request_id m s))"
| r_broadcast_progress: "reachable own s \<Longrightarrow>
     reachable own (snd (broadcast_progress request_id event_type data now s))"
| r_replay: "reachable own s \<Longrightarrow> reachable own (snd (replay_queued_messages request_id s))"
| r_acknowledge: "reachable own s \<Longrightarrow> reachable own (acknowledge_message request_id message_id s)"
| r_heartbeat: "reachable own s \<Longrightarrow> reachable own (heartbeat_round current_time s)"
| r_heartbeat_response: "reachable own s \<Longrightarrow> reachable own (heartbeat_response request_id now s)"
| r_cleanup: "reachable own s \<Longrightarrow>
     reachable own (snd (cleanup_old_data max_age_hours current_time s))"

text \<open>
  A call the heartbeat loop may make when it reads the clock at the instants \<open>ts\<close>:
  sending the heartbeat frame of one of them, or closing a transport.
\<close>

definition heartbeat_call :: "time list \<Rightarrow> call \<times> exn option \<Rightarrow> bool" where
  "heartbeat_call ts = (\<lambda>(c, f). case c of
       Send_json w m \<Rightarrow> m \<in> heartbeat_frame ` set ts
     | Close w \<Rightarrow> True
     | Accept w \<Rightarrow> False)"

text \<open>
  \<^verbatim>\<open>connect\<close> in two steps: the state after the statements that register the accepted
  transport, and the dictionary of the \<^verbatim>\<open>connection_established\<close> message.
\<close>

definition registered :: "string \<Rightarrow> ws \<Rightarrow> string \<Rightarrow> time \<Rightarrow> time \<Rightarrow> world \<Rightarrow> world" where
  "registered rid w uid t1 t2 s =
     s\<lparr>wire := wire s @ [(Accept w, None)],
       faults := tl (faults s),
       active_connections := AList.update rid w (active_connections s),
       connection_metadata := AList.update rid
          \<lparr>user_id = uid, connected_at = t1, last_heartbeat = t2, reconnection_count = 0\<rparr>
          (connection_metadata s),
       message_counters := (if has_key (message_counters s) rid then message_counters s
                            else AList.update rid 0 (message_counters s)),
       last_ack := (if has_key (last_ack s) rid then last_ack s
                    else AList.update rid 0 (last_ack s))\<rparr>"

definition connection_established :: "string \<Rightarrow> time \<Rightarrow> message" where
  "connection_established rid t3 =
     [(''type'', JStr ''connection_established''), (''timestamp'', JIso t3),
      (''data'', JObj [(''request_id'', JStr rid),
         (''message'', JStr ''WebSocket connection established'')])]"

text \<open>
  The situation of the test \<^verbatim>\<open>test_reconnection_skips_acknowledged_messages\<close>: five
  messages sent with no transport, numbered 1 to 5 and queued, the mark acknowledged at
  \<open>a\<close>, then the transports \<open>conns\<close> registered; the transport calls raise what
  \<open>fs\<close> says.
\<close>

definition five_queued :: "int \<Rightarrow> exn option list \<Rightarrow> ws dict \<Rightarrow> world" where
  "five_queued a fs conns =
     (acknowledge_message ''r1'' a
        (fold (\<lambda>i s. snd (broadcast_progress ''r1'' ''test_message'' (JObj [(''index'', JInt i)]) 0 s))
           [1, 2, 3, 4, 5] (init fs)))
     \<lparr>active_connections := conns\<rparr>"

text \<open>
  A session that has connected on transport 7 and has been sent one progress message,
  with a transport that raises nothing.
\<close>

definition served :: world where
  "served = snd (broadcast_progress ''r1'' ''progress'' (JObj [(''x'', JInt 1)]) 13
              (snd (connect ''r1'' 7 ''u1'' 10 11 12 (init []))))"

text \<open>
  Two dictionaries built, and sent with no transport: the first, the second, and the first
  again while it is still queued.
\<close>

definition sent_again :: world where
  "sent_again =
     snd (send_message ''r1'' 0 (snd (send_message ''r1'' 1 (snd (send_message ''r1'' 0 (snd (new_dict [(''type'', JStr ''b'')] (snd (new_dict [(''type'', JStr ''a'')] (init []))))))))))"

section \<open>Lemmas on dictionaries\<close>

lemma dict_get_Nil [simp]: "dict_get [] k dflt = dflt"
  by (simp add: dict_get_def)

lemma dict_get_Cons [simp]:
  "dict_get ((k, v) # d) k' dflt = (if k = k' then v else dict_get d k' dflt)"
  by (simp add: dict_get_def)

lemma has_key_Nil [simp]: "has_key [] k = False"
  by (simp add: has_key_def)

lemma has_key_Cons [simp]: "has_key ((k, v) # d) k' = (k = k' \<or> has_key d k')"
  by (auto simp add: has_key_def)

lemma dict_get_update [simp]:
  "dict_get (AList.update k v d) k' dflt = (if k' = k then v else dict_get d k' dflt)"
  by (simp add: dict_get_def update_conv')

lemma dict_get_delete [simp]:
  "dict_get (AList.delete k d) k' dflt = (if k' = k then dflt else dict_get d k' dflt)"
  by (simp add: dict_get_def delete_conv')

lemma has_key_update [simp]: "has_key (AList.update k v d) k' = (k' = k \<or> has_key d k')"
  by (simp add: has_key_def update_conv')

lemma has_key_delete [simp]: "has_key (AList.delete k d) k' = (k' \<noteq> k \<and> has_key d k')"
  by (simp add: has_key_def delete_conv')

lemma dict_get_absent: "\<not> has_key d k \<Longrightarrow> dict_get d k dflt = dflt"
  by (simp add: has_key_def dict_get_def)

section \<open>What each operation does to the state\<close>

lemma raised_update [simp]:
  "raised (active_connections_update f1 s) = raised s"
  "raised (connection_metadata_update f2 s) = raised s"
  "raised (message_queue_update f3 s) = raised s"
  "raised (last_ack_update f4 s) = raised s"
  "raised (message_counters_update f5 s) = raised s"
  "raised (heap_update f6 s) = raised s"
  "raised (next_ref_update f7 s) = raised s"
  "raised (wire_update f8 s) = raised s"
  by (simp_all add: raised_def)

lemma transport_eq:
  "transport c s = (case raised s of None \<Rightarrow> Inr () | Some e \<Rightarrow> Inl e,
       s\<lparr>wire := wire s @ [(c, raised s)], faults := tl (faults s)\<rparr>)"
  by (simp add: transport_def Let_def)

lemma disconnect_eq:
  "disconnect rid s = (Inr (),
     (case map_of (active_connections s) rid of
        None \<Rightarrow> s
      | Some w \<Rightarrow> s\<lparr>active_connections := AList.delete rid (active_connections s),
            wire := wire s @ [(Close w, raised s)],
            faults := tl (faults s)\<rparr>))"
  by (simp add: disconnect_def transport_eq split: option.splits)

lemma queue_message_eq:
  "queue_message rid m s =
     s\<lparr>message_queue := AList.update rid (dict_get (message_queue s) rid [] @ [m]) (message_queue s)\<rparr>"
  by (simp add: queue_message_def Let_def dict_get_absent)

lemmas send_message_simps = send_message_def Let_def transport_eq disconnect_eq queue_message_eq

lemma send_message_counters:
  "message_counters (snd (send_message rid m s)) =
     AList.update rid (dict_get (message_counters s) rid 0 + 1) (message_counters s)"
  by (simp add: send_message_simps split: option.splits exn.splits)

lemma send_message_heap:
  "heap (snd (send_message rid m s)) =
     (heap s)(m := AList.update ''message_id'' (JInt (dict_get (message_counters s) rid 0 + 1)) (heap s m))"
  by (simp add: send_message_simps split: option.splits exn.splits)

lemma has_key_iff: "has_key d k \<longleftrightarrow> k \<in> fst ` set d"
  by (simp add: has_key_def map_of_eq_None_iff)

lemma list_all_update:
  "list_all P d \<Longrightarrow> P (k, v) \<Longrightarrow> list_all P (AList.update k v d)"
  by (induction d) auto

lemma replay_loop_fields:
  "active_connections (replay_loop rid ms s) = active_connections s
   \<and> connection_metadata (replay_loop rid ms s) = connection_metadata s
   \<and> message_queue (replay_loop rid ms s) = message_queue s
   \<and> last_ack (replay_loop rid ms s) = last_ack s
   \<and> message_counters (replay_loop rid ms s) = message_counters s
   \<and> heap (replay_loop rid ms s) = heap s
   \<and> next_ref (replay_loop rid ms s) = next_ref s"
  by (induction ms arbitrary: s) (simp_all add: transport_eq split: option.splits)

lemma replay_fields:
  "active_connections (snd (replay_queued_messages rid s)) = active_connections s
   \<and> connection_metadata (snd (replay_queued_messages rid s)) = connection_metadata s
   \<and> last_ack (snd (replay_queued_messages rid s)) = last_ack s
   \<and> message_counters (snd (replay_queued_messages rid s)) = message_counters s
   \<and> heap (snd (replay_queued_messages rid s)) = heap s
   \<and> next_ref (snd (replay_queued_messages rid s)) = next_ref s
   \<and> (message_queue (snd (replay_queued_messages rid s)) = message_queue s
      \<or> message_queue (snd (replay_queued_messages rid s)) = AList.update rid [] (message_queue s))"
  by (simp add: replay_queued_messages_def Let_def replay_loop_fields split: option.splits sum.splits)

lemma send_message_fields:
  "connection_metadata (snd (send_message rid m s)) = connection_metadata s
   \<and> last_ack (snd (send_message rid m s)) = last_ack s
   \<and> next_ref (snd (send_message rid m s)) = next_ref s
   \<and> (message_queue (snd (send_message rid m s)) = message_queue s
      \<or> message_queue (snd (send_message rid m s))
           = AList.update rid (dict_get (message_queue s) rid [] @ [m]) (message_queue s))"
  by (simp add: send_message_simps split: option.splits exn.splits)

lemma remove_request_eq:
  "remove_request rid s =
     s\<lparr>connection_metadata := AList.delete rid (connection_metadata s),
       message_queue := AList.delete rid (message_queue s),
       last_ack := AList.delete rid (last_ack s),
       message_counters := AList.delete rid (message_counters s)\<rparr>"
  by (simp add: remove_request_def Let_def has_key_iff)

lemma heartbeat_one_fields:
  "message_queue (snd (heartbeat_one t rid s)) = message_queue s
   \<and> last_ack (snd (heartbeat_one t rid s)) = last_ack s
   \<and> message_counters (snd (heartbeat_one t rid s)) = message_counters s
   \<and> heap (snd (heartbeat_one t rid s)) = heap s
   \<and> next_ref (snd (heartbeat_one t rid s)) = next_ref s"
  by (simp add: heartbeat_one_def transport_eq disconnect_eq split: option.splits exn.splits)

lemma heartbeat_for_fields:
  "message_queue (snd (heartbeat_for t rids s)) = message_queue s
   \<and> last_ack (snd (heartbeat_for t rids s)) = last_ack s
   \<and> message_counters (snd (heartbeat_for t rids s)) = message_counters s
   \<and> heap (snd (heartbeat_for t rids s)) = heap s
   \<and> next_ref (snd (heartbeat_for t rids s)) = next_ref s"
proof (induction rids arbitrary: s)
  case Nil
  show ?case by simp
next
  case (Cons rid rids)
  show ?case
    using heartbeat_one_fields [of t rid s] Cons.IH [of "snd (heartbeat_one t rid s)"]
    by (cases "heartbeat_one t rid s") (auto split: sum.splits)
qed

lemma heartbeat_round_fields:
  "message_queue (heartbeat_round t s) = message_queue s
   \<and> last_ack (heartbeat_round t s) = last_ack s
   \<and> message_counters (heartbeat_round t s) = message_counters s
   \<and> heap (heartbeat_round t s) = heap s
   \<and> next_ref (heartbeat_round t s) = next_ref s"
  using heartbeat_for_fields [of t "map fst (active_connections s)" s]
  by (cases "heartbeat_for t (map fst (active_connections s)) s")
    (auto simp add: heartbeat_round_def split: sum.splits)

lemma heartbeat_loop_fields:
  "message_queue (heartbeat_loop ts s) = message_queue s
   \<and> last_ack (heartbeat_loop ts s) = last_ack s
   \<and> message_counters (heartbeat_loop ts s) = message_counters s
   \<and> heap (heartbeat_loop ts s) = heap s
   \<and> next_ref (heartbeat_loop ts s) = next_ref s"
  by (induction ts arbitrary: s) (simp_all add: heartbeat_round_fields)

section \<open>The queues stay numbered\<close>

lemma well_numbered_Nil [simp]: "well_numbered h nxt c []"
  by (simp add: well_numbered_def)

lemma well_numbered_mono:
  assumes "well_numbered h nxt c q" and "c \<le> c'" and "nxt \<le> nxt'"
    and "\<And>m. m \<in> set q \<Longrightarrow> h' m = h m"
  shows "well_numbered h' nxt' c' q"
proof -
  from assms(1) have a: "\<forall>m\<in>set q. m < nxt \<and>
          (case map_of (h m) ''message_id'' of Some (JInt n) \<Rightarrow> n \<le> c | _ \<Rightarrow> False)"
    and b: "sorted_wrt (\<lambda>a b. seq_no (h a) < seq_no (h b)) q"
    by (simp_all add: well_numbered_def list_all_iff)
  have "\<forall>m\<in>set q. m < nxt' \<and>
          (case map_of (h' m) ''message_id'' of Some (JInt n) \<Rightarrow> n \<le> c' | _ \<Rightarrow> False)"
  proof
    fix m assume m: "m \<in> set q"
    with a have "m < nxt" and
      "(case map_of (h m) ''message_id'' of Some (JInt n) \<Rightarrow> n \<le> c | _ \<Rightarrow> False)" by auto
    with assms(2,3) assms(4) [OF m]
    show "m < nxt' \<and> (case map_of (h' m) ''message_id'' of Some (JInt n) \<Rightarrow> n \<le> c' | _ \<Rightarrow> False)"
      by (auto split: option.splits jval.splits)
  qed
  moreover have "sorted_wrt (\<lambda>a b. seq_no (h' a) < seq_no (h' b)) q"
    using b assms(4) by (auto elim!: sorted_wrt_mono_rel [rotated])
  ultimately show ?thesis by (simp add: well_numbered_def list_all_iff)
qed

lemma well_numbered_snoc:
  assumes "well_numbered h nxt c q" and "m < nxt" and "m \<notin> set q"
  shows "well_numbered (h(m := AList.update ''message_id'' (JInt (c + 1)) (h m))) nxt (c + 1) (q @ [m])"
proof -
  let ?h = "h(m := AList.update ''message_id'' (JInt (c + 1)) (h m))"
  have old: "well_numbered ?h nxt (c + 1) q"
    using assms(1) by (rule well_numbered_mono) (use assms(3) in auto)
  have ids: "\<forall>a\<in>set q. seq_no (?h a) \<le> c"
  proof
    fix a assume a: "a \<in> set q"
    with assms(1) have "(case map_of (h a) ''message_id'' of Some (JInt n) \<Rightarrow> n \<le> c | _ \<Rightarrow> False)"
      by (simp add: well_numbered_def list_all_iff)
    moreover from a assms(3) have "?h a = h a" by auto
    ultimately show "seq_no (?h a) \<le> c"
      by (auto simp add: seq_no_def split: option.splits jval.splits)
  qed
  have new: "seq_no (?h m) = c + 1" "map_of (?h m) ''message_id'' = Some (JInt (c + 1))"
    by (simp_all add: seq_no_def update_conv')
  from old have "list_all (\<lambda>m. m < nxt \<and>
          (case map_of (?h m) ''message_id'' of Some (JInt n) \<Rightarrow> n \<le> c + 1 | _ \<Rightarrow> False)) q"
    and "sorted_wrt (\<lambda>a b. seq_no (?h a) < seq_no (?h b)) q"
    by (simp_all add: well_numbered_def)
  with ids new assms(2) show ?thesis
    unfolding well_numbered_def by (auto simp add: sorted_wrt_append simp del: fun_upd_apply)
qed


lemma numbered_iff:
  "numbered s \<longleftrightarrow> (\<forall>(r, q)\<in>set (message_queue s).
      well_numbered (heap s) (next_ref s) (dict_get (message_counters s) r 0) q)"
  by (simp add: numbered_def list_all_iff)

lemma unqueued_iff: "unqueued m s \<longleftrightarrow> (\<forall>(r, q)\<in>set (message_queue s). m \<notin> set q)"
  by (simp add: unqueued_def list_all_iff)

lemma numbered_init: "numbered (init fs)"
  by (simp add: numbered_def init_def)

lemma dict_get_queue_well_numbered:
  assumes "numbered s"
  shows "well_numbered (heap s) (next_ref s) (dict_get (message_counters s) rid 0)
           (dict_get (message_queue s) rid [])"
proof (cases "map_of (message_queue s) rid")
  case None
  then show ?thesis by (simp add: dict_get_def)
next
  case (Some q)
  then have "(rid, q) \<in> set (message_queue s)" by (rule map_of_SomeD)
  with assms Some show ?thesis by (auto simp add: numbered_iff dict_get_def)
qed

lemma dict_get_queue_unqueued:
  assumes "unqueued m s" shows "m \<notin> set (dict_get (message_queue s) rid [])"
proof (cases "map_of (message_queue s) rid")
  case None
  then show ?thesis by (simp add: dict_get_def)
next
  case (Some q)
  then have "(rid, q) \<in> set (message_queue s)" by (rule map_of_SomeD)
  with assms Some show ?thesis by (auto simp add: unqueued_iff dict_get_def)
qed

lemma numbered_send_message:
  assumes "numbered s" and "m < next_ref s" and "unqueued m s"
  shows "numbered (snd (send_message rid m s))"
proof -
  let ?s' = "snd (send_message rid m s)"
  let ?c = "dict_get (message_counters s) rid 0"
  let ?h = "(heap s)(m := AList.update ''message_id'' (JInt (?c + 1)) (heap s m))"
  let ?P = "\<lambda>(r, q). well_numbered (heap ?s') (next_ref ?s') (dict_get (message_counters ?s') r 0) q"
  have h: "heap ?s' = ?h" by (rule send_message_heap)
  have c: "message_counters ?s' = AList.update rid (?c + 1) (message_counters s)"
    by (rule send_message_counters)
  have n: "next_ref ?s' = next_ref s" using send_message_fields [of rid m s] by simp
  have old: "list_all ?P (message_queue s)"
    unfolding list_all_iff
  proof (clarify)
    fix r q assume rq: "(r, q) \<in> set (message_queue s)"
    with assms(1) have w: "well_numbered (heap s) (next_ref s) (dict_get (message_counters s) r 0) q"
      by (auto simp add: numbered_iff)
    from rq assms(3) have nm: "m \<notin> set q" by (auto simp add: unqueued_iff)
    show "well_numbered (heap ?s') (next_ref ?s') (dict_get (message_counters ?s') r 0) q"
      unfolding h c n using w
      by (rule well_numbered_mono) (use nm in auto)
  qed
  have new: "?P (rid, dict_get (message_queue s) rid [] @ [m])"
    unfolding h c n
    using well_numbered_snoc [OF dict_get_queue_well_numbered [OF assms(1), of rid] assms(2)
        dict_get_queue_unqueued [OF assms(3), of rid]]
    by simp
  from send_message_fields [of rid m s]
  have "message_queue ?s' = message_queue s
      \<or> message_queue ?s' = AList.update rid (dict_get (message_queue s) rid [] @ [m]) (message_queue s)"
    by simp
  then show ?thesis
  proof
    assume "message_queue ?s' = message_queue s"
    with old show ?thesis by (simp add: numbered_def)
  next
    assume "message_queue ?s' = AList.update rid (dict_get (message_queue s) rid [] @ [m]) (message_queue s)"
    with list_all_update [OF old new] show ?thesis by (simp add: numbered_def)
  qed
qed

lemma send_message_fst: "fst (send_message rid m s) = Inr (map_of (active_connections s) rid \<noteq> None \<and> raised s = None)"
  by (auto simp add: send_message_simps split: option.splits exn.splits)

lemma send_message_then:
  "(case send_message rid m s of (Inl e, s7) \<Rightarrow> (Inl e, s7) | (Inr x, s7) \<Rightarrow> f s7)
     = f (snd (send_message rid m s))"
  using send_message_fst [of rid m s] by (cases "send_message rid m s") auto

lemma connect_raises:
  "raised s = Some e \<Longrightarrow>
   connect rid w uid t1 t2 t3 s = (Inl e, s\<lparr>wire := wire s @ [(Accept w, Some e)], faults := tl (faults s)\<rparr>)"
  by (simp add: connect_def transport_eq)

lemma connect_accepted:
  "raised s = None \<Longrightarrow>
   connect rid w uid t1 t2 t3 s =
     replay_queued_messages rid
       (snd (send_message rid (next_ref s)
          (snd (new_dict (connection_established rid t3) (registered rid w uid t1 t2 s)))))"
  by (auto simp add: connect_def transport_eq new_dict_def connection_established_def Let_def
      registered_def send_message_then)


lemma dict_get_setdefault:
  "dict_get (if has_key c rid then c else AList.update rid (0::int) c) r 0 = dict_get c r 0"
  by (simp add: dict_get_absent)

lemma numbered_registered: "numbered (registered rid w uid t1 t2 s) = numbered s"
  by (simp add: numbered_def registered_def dict_get_setdefault)

lemma numbered_new_dict:
  assumes "numbered s" shows "numbered (snd (new_dict msg s))"
  unfolding numbered_iff
proof (clarify)
  fix r q assume "(r, q) \<in> set (message_queue (snd (new_dict msg s)))"
  then have rq: "(r, q) \<in> set (message_queue s)" by (simp add: new_dict_def)
  with assms have w: "well_numbered (heap s) (next_ref s) (dict_get (message_counters s) r 0) q"
    by (auto simp add: numbered_iff)
  then have "\<forall>m\<in>set q. m < next_ref s" by (simp add: well_numbered_def list_all_iff)
  then have "\<And>m. m \<in> set q \<Longrightarrow> ((heap s)(next_ref s := msg)) m = heap s m" by auto
  then have "well_numbered ((heap s)(next_ref s := msg)) (Suc (next_ref s))
      (dict_get (message_counters s) r 0) q"
    by (intro well_numbered_mono [OF w]) simp_all
  then show "well_numbered (heap (snd (new_dict msg s))) (next_ref (snd (new_dict msg s)))
      (dict_get (message_counters (snd (new_dict msg s))) r 0) q"
    by (simp add: new_dict_def)
qed

lemma new_dict_unqueued:
  assumes "numbered s" shows "unqueued (next_ref s) (snd (new_dict msg s))"
  unfolding unqueued_iff
proof (clarify)
  fix r q assume "(r, q) \<in> set (message_queue (snd (new_dict msg s)))" and m: "next_ref s \<in> set q"
  then have rq: "(r, q) \<in> set (message_queue s)" by (simp add: new_dict_def)
  with assms have "well_numbered (heap s) (next_ref s) (dict_get (message_counters s) r 0) q"
    by (auto simp add: numbered_iff)
  then have "\<forall>m\<in>set q. m < next_ref s" by (simp add: well_numbered_def list_all_iff)
  with m show False by auto
qed

lemma numbered_send_new:
  assumes "numbered s"
  shows "numbered (snd (send_message rid (next_ref s) (snd (new_dict msg s))))"
  using numbered_new_dict [OF assms] new_dict_unqueued [OF assms]
  by (intro numbered_send_message) (simp_all add: new_dict_def)

lemma numbered_broadcast_progress:
  "numbered s \<Longrightarrow> numbered (snd (broadcast_progress rid ty d now s))"
  using numbered_send_new [of s rid "[(''type'', JStr ty), (''timestamp'', JIso now), (''data'', d)]"]
  by (simp add: broadcast_progress_def new_dict_def)

lemma numbered_replay:
  assumes "numbered s" shows "numbered (snd (replay_queued_messages rid s))"
proof -
  let ?s' = "snd (replay_queued_messages rid s)"
  from replay_fields [of rid s]
  have f: "message_counters ?s' = message_counters s" "heap ?s' = heap s" "next_ref ?s' = next_ref s"
    and q: "message_queue ?s' = message_queue s \<or> message_queue ?s' = AList.update rid [] (message_queue s)"
    by simp_all
  from q show ?thesis
  proof
    assume "message_queue ?s' = message_queue s"
    with f assms show ?thesis by (simp add: numbered_def)
  next
    assume "message_queue ?s' = AList.update rid [] (message_queue s)"
    with f assms show ?thesis by (simp add: numbered_def list_all_update)
  qed
qed

lemma numbered_disconnect: "numbered (snd (disconnect rid s)) = numbered s"
  by (simp add: disconnect_eq numbered_def split: option.splits)

lemma numbered_connect:
  assumes "numbered s" shows "numbered (snd (connect rid w uid t1 t2 t3 s))"
proof (cases "raised s")
  case None
  have "numbered (registered rid w uid t1 t2 s)" using assms by (simp add: numbered_registered)
  then have "numbered (snd (send_message rid (next_ref (registered rid w uid t1 t2 s))
      (snd (new_dict (connection_established rid t3) (registered rid w uid t1 t2 s)))))"
    by (rule numbered_send_new)
  moreover have "next_ref (registered rid w uid t1 t2 s) = next_ref s" by (simp add: registered_def)
  ultimately show ?thesis by (simp add: connect_accepted [OF None] numbered_replay)
next
  case (Some e)
  with assms show ?thesis by (simp add: connect_raises numbered_def)
qed

lemma numbered_acknowledge: "numbered (acknowledge_message rid mid s) = numbered s"
  by (simp add: acknowledge_message_def numbered_def)

lemma numbered_heartbeat_round: "numbered (heartbeat_round t s) = numbered s"
  using heartbeat_round_fields [of t s] by (simp add: numbered_def)

lemma numbered_heartbeat_response: "numbered (heartbeat_response rid now s) = numbered s"
  by (simp add: heartbeat_response_def numbered_def split: option.splits)

lemma numbered_remove_request:
  assumes "numbered s" shows "numbered (remove_request rid s)"
  unfolding numbered_iff
proof (clarify)
  fix r q assume "(r, q) \<in> set (message_queue (remove_request rid s))"
  then have rq: "(r, q) \<in> set (message_queue s)" and ne: "r \<noteq> rid"
    by (auto simp add: remove_request_eq AList.delete_eq)
  with assms have "well_numbered (heap s) (next_ref s) (dict_get (message_counters s) r 0) q"
    by (auto simp add: numbered_iff)
  with ne show "well_numbered (heap (remove_request rid s)) (next_ref (remove_request rid s))
      (dict_get (message_counters (remove_request rid s)) r 0) q"
    by (simp add: remove_request_eq)
qed

lemma numbered_fold_remove: "numbered s \<Longrightarrow> numbered (fold remove_request rids s)"
  by (induction rids arbitrary: s) (simp_all add: numbered_remove_request)

lemma numbered_cleanup: "numbered s \<Longrightarrow> numbered (snd (cleanup_old_data h t s))"
  by (simp add: cleanup_old_data_def numbered_fold_remove split: sum.splits)

text \<open>
  When the caller hands \<^verbatim>\<open>send_message\<close> only dictionaries that are in no queue, the
  queues of every state the manager gets into are numbered.
\<close>

lemma reachable_numbered: "reachable True s \<Longrightarrow> numbered s"
proof (induction "True" s rule: reachable.induct)
  case (r_init fs)
  show ?case by (rule numbered_init)
next
  case (r_new_dict s msg)
  then show ?case by (simp add: numbered_new_dict)
next
  case (r_connect s request_id websocket uid t1 t2 t3)
  then show ?case by (simp add: numbered_connect)
next
  case (r_disconnect s request_id)
  then show ?case by (simp add: numbered_disconnect)
next
  case (r_send_message s m request_id)
  then show ?case by (simp add: numbered_send_message)
next
  case (r_broadcast_progress s request_id event_type data now)
  then show ?case by (simp add: numbered_broadcast_progress)
next
  case (r_replay s request_id)
  then show ?case by (simp add: numbered_replay)
next
  case (r_acknowledge s request_id message_id)
  then show ?case by (simp add: numbered_acknowledge)
next
  case (r_heartbeat s current_time)
  then show ?case by (simp add: numbered_heartbeat_round)
next
  case (r_heartbeat_response s request_id now)
  then show ?case by (simp add: numbered_heartbeat_response)
next
  case (r_cleanup s max_age_hours current_time)
  then show ?case by (simp add: numbered_cleanup)
qed

text \<open>
  Whatever dictionaries the caller hands to \<^verbatim>\<open>send_message\<close>, the queued messages
  have numbers as their ids: the comparison of replay never raises.
\<close>

lemma identified_iff:
  "identified s \<longleftrightarrow> (\<forall>(r, q)\<in>set (message_queue s). \<forall>m\<in>set q. m < next_ref s \<and>
      (case map_of (heap s m) ''message_id'' of Some (JInt n) \<Rightarrow> True | _ \<Rightarrow> False))"
  by (simp add: identified_def list_all_iff)

lemma identified_eq:
  "message_queue s' = message_queue s \<Longrightarrow> heap s' = heap s \<Longrightarrow> next_ref s' = next_ref s \<Longrightarrow>
   identified s' = identified s"
  by (simp add: identified_def)

lemma identified_init: "identified (init fs)"
  by (simp add: identified_def init_def)

lemma identified_new_dict:
  assumes "identified s" shows "identified (snd (new_dict msg s))"
  using assms unfolding identified_iff by (fastforce simp add: new_dict_def)

lemma identified_send_message:
  assumes "identified s" and "m < next_ref s"
  shows "identified (snd (send_message rid m s))"
proof -
  let ?s' = "snd (send_message rid m s)"
  let ?ok = "\<lambda>x. x < next_ref ?s' \<and>
      (case map_of (heap ?s' x) ''message_id'' of Some (JInt n) \<Rightarrow> True | _ \<Rightarrow> False)"
  have n: "next_ref ?s' = next_ref s" using send_message_fields [of rid m s] by simp
  have new: "?ok m"
    using assms(2) by (simp add: n send_message_heap update_conv')
  have keep: "?ok x" if "x < next_ref s"
      and "(case map_of (heap s x) ''message_id'' of Some (JInt n) \<Rightarrow> True | _ \<Rightarrow> False)" for x
    using that new by (cases "x = m") (simp_all add: n send_message_heap)
  have old: "list_all (\<lambda>(r, q). list_all ?ok q) (message_queue s)"
    using assms(1) keep unfolding identified_iff list_all_iff by fast
  have q: "list_all ?ok (dict_get (message_queue s) rid [])"
  proof (cases "map_of (message_queue s) rid")
    case None
    then show ?thesis by (simp add: dict_get_def)
  next
    case (Some q)
    then have "(rid, q) \<in> set (message_queue s)" by (rule map_of_SomeD)
    with old Some show ?thesis by (auto simp add: dict_get_def list_all_iff)
  qed
  from send_message_fields [of rid m s]
  have "message_queue ?s' = message_queue s
      \<or> message_queue ?s' = AList.update rid (dict_get (message_queue s) rid [] @ [m]) (message_queue s)"
    by simp
  then show ?thesis
  proof
    assume "message_queue ?s' = message_queue s"
    with old show ?thesis by (simp add: identified_def)
  next
    assume "message_queue ?s' = AList.update rid (dict_get (message_queue s) rid [] @ [m]) (message_queue s)"
    moreover have "list_all (\<lambda>(r, q). list_all ?ok q)
        (AList.update rid (dict_get (message_queue s) rid [] @ [m]) (message_queue s))"
      using old q new by (intro list_all_update) simp_all
    ultimately show ?thesis by (simp add: identified_def)
  qed
qed

lemma identified_send_new:
  assumes "identified s"
  shows "identified (snd (send_message rid (next_ref s) (snd (new_dict msg s))))"
  using identified_new_dict [OF assms]
  by (intro identified_send_message) (simp_all add: new_dict_def)

lemma identified_broadcast_progress:
  "identified s \<Longrightarrow> identified (snd (broadcast_progress rid ty d now s))"
  using identified_send_new [of s rid "[(''type'', JStr ty), (''timestamp'', JIso now), (''data'', d)]"]
  by (simp add: broadcast_progress_def new_dict_def)

lemma identified_replay:
  assumes "identified s" shows "identified (snd (replay_queued_messages rid s))"
proof -
  let ?s' = "snd (replay_queued_messages rid s)"
  from replay_fields [of rid s]
  have f: "heap ?s' = heap s" "next_ref ?s' = next_ref s"
    and q: "message_queue ?s' = message_queue s \<or> message_queue ?s' = AList.update rid [] (message_queue s)"
    by simp_all
  from q show ?thesis
  proof
    assume "message_queue ?s' = message_queue s"
    with f assms show ?thesis by (simp add: identified_def)
  next
    assume "message_queue ?s' = AList.update rid [] (message_queue s)"
    with f assms show ?thesis by (simp add: identified_def list_all_update)
  qed
qed

lemma identified_registered: "identified (registered rid w uid t1 t2 s) = identified s"
  by (simp add: identified_def registered_def)

lemma identified_connect:
  assumes "identified s" shows "identified (snd (connect rid w uid t1 t2 t3 s))"
proof (cases "raised s")
  case None
  have "identified (registered rid w uid t1 t2 s)" using assms by (simp add: identified_registered)
  then have "identified (snd (send_message rid (next_ref (registered rid w uid t1 t2 s))
      (snd (new_dict (connection_established rid t3) (registered rid w uid t1 t2 s)))))"
    by (rule identified_send_new)
  moreover have "next_ref (registered rid w uid t1 t2 s) = next_ref s" by (simp add: registered_def)
  ultimately show ?thesis by (simp add: connect_accepted [OF None] identified_replay)
next
  case (Some e)
  with assms show ?thesis by (simp add: connect_raises identified_def)
qed

lemma identified_disconnect: "identified (snd (disconnect rid s)) = identified s"
  by (simp add: disconnect_eq identified_def split: option.splits)

lemma identified_acknowledge: "identified (acknowledge_message rid mid s) = identified s"
  by (simp add: acknowledge_message_def identified_def)

lemma identified_heartbeat_round: "identified (heartbeat_round t s) = identified s"
  using heartbeat_round_fields [of t s] by (simp add: identified_def)

lemma identified_heartbeat_response: "identified (heartbeat_response rid now s) = identified s"
  by (simp add: heartbeat_response_def identified_def split: option.splits)

lemma identified_remove_request:
  assumes "identified s" shows "identified (remove_request rid s)"
  using assms unfolding identified_iff
  by (auto simp add: remove_request_eq AList.delete_eq)

lemma identified_fold_remove: "identified s \<Longrightarrow> identified (fold remove_request rids s)"
  by (induction rids arbitrary: s) (simp_all add: identified_remove_request)

lemma identified_cleanup: "identified s \<Longrightarrow> identified (snd (cleanup_old_data h t s))"
  by (simp add: cleanup_old_data_def identified_fold_remove split: sum.splits)

lemma reachable_identified: "reachable own s \<Longrightarrow> identified s"
proof (induction rule: reachable.induct)
  case (r_init own fs)
  show ?case by (rule identified_init)
next
  case (r_new_dict own s msg)
  then show ?case by (simp add: identified_new_dict)
next
  case (r_connect own s request_id websocket uid t1 t2 t3)
  then show ?case by (simp add: identified_connect)
next
  case (r_disconnect own s request_id)
  then show ?case by (simp add: identified_disconnect)
next
  case (r_send_message own s m request_id)
  then show ?case by (simp add: identified_send_message)
next
  case (r_broadcast_progress own s request_id event_type data now)
  then show ?case by (simp add: identified_broadcast_progress)
next
  case (r_replay own s request_id)
  then show ?case by (simp add: identified_replay)
next
  case (r_acknowledge own s request_id message_id)
  then show ?case by (simp add: identified_acknowledge)
next
  case (r_heartbeat own s current_time)
  then show ?case by (simp add: identified_heartbeat_round)
next
  case (r_heartbeat_response own s request_id now)
  then show ?case by (simp add: identified_heartbeat_response)
next
  case (r_cleanup own s max_age_hours current_time)
  then show ?case by (simp add: identified_cleanup)
qed

lemma reachable_comparable:
  assumes "reachable own s"
  shows "list_all (\<lambda>m. comparable (heap s m)) (dict_get (message_queue s) rid [])"
proof (cases "map_of (message_queue s) rid")
  case None
  then show ?thesis by (simp add: dict_get_def)
next
  case (Some q)
  then have "(rid, q) \<in> set (message_queue s)" by (rule map_of_SomeD)
  with reachable_identified [OF assms] have "\<forall>m\<in>set q.
      (case map_of (heap s m) ''message_id'' of Some (JInt n) \<Rightarrow> True | _ \<Rightarrow> False)"
    unfolding identified_iff by fast
  then have "\<forall>m\<in>set q. comparable (heap s m)"
    by (auto simp add: comparable_def split: option.splits jval.splits)
  with Some show ?thesis by (simp add: dict_get_def list_all_iff)
qed

text \<open>To run the operations on a given state.\<close>

lemmas run_simps = connect_def new_dict_def send_message_simps replay_queued_messages_def
  init_def raised_def has_key_def dict_get_def calls_since_def acknowledge_message_def
  unacknowledged_def

text \<open>
  The condition \<open>own\<close> counts. \<^verbatim>\<open>send_message\<close> writes the id into the caller's
  dictionary, and the queue holds that dictionary, not a copy: a dictionary sent again
  while it is queued takes its new number in the queue too, and the queue, here with the
  ids 3, 2, 3, is no longer in ascending order.
\<close>

lemma sent_again_reachable: "reachable False sent_again"
  unfolding sent_again_def by (intro reachable.intros) (simp_all add: run_simps)

lemma sent_again_eq:
  "sent_again =
    \<lparr>active_connections = [], connection_metadata = [],
     message_queue = [(''r1'', [0, 1, 0])], last_ack = [], message_counters = [(''r1'', 3)],
     heap = (\<lambda>_. [])
       (0 := [(''type'', JStr ''a''), (''message_id'', JInt 3)],
        1 := [(''type'', JStr ''b''), (''message_id'', JInt 2)]),
     next_ref = 2, wire = [], faults = []\<rparr>"
  by (simp add: sent_again_def run_simps eval_nat_numeral fun_upd_twist)

lemma sent_again_not_ascending:
  "map (\<lambda>m. seq_no (heap sent_again m)) [0, 1, 0] = [3, 2, 3]
   \<and> \<not> ascending (heap sent_again) [0, 1, 0]"
  by (simp add: sent_again_eq seq_no_def ascending_def)

section \<open>Sending when the transport fails\<close>

text \<open>
  C6. When the transport is there and \<^verbatim>\<open>send_json\<close> raises, \<^verbatim>\<open>send_message\<close> closes
  and unregisters the transport (the disconnect logic), appends the message to the queue
  of the session and returns False. When no transport is registered it appends the
  message to the queue and returns False, with no call on any transport. When the
  transport takes the message it returns True and the queue is as before. In each case
  the message carries its sequence number, and the call returns a boolean: it raises
  nothing, whatever the transport raises.
\<close>

theorem send_message_failure_queues:
  "(map_of (active_connections s) rid = Some w \<and> raised s = Some e \<longrightarrow>
      fst (send_message rid m s) = Inr False
      \<and> map fst (calls_since s (snd (send_message rid m s)))
          = [Send_json w (heap (snd (send_message rid m s)) m), Close w]
      \<and> \<not> has_key (active_connections (snd (send_message rid m s))) rid
      \<and> map_of (message_queue (snd (send_message rid m s))) rid
          = Some (dict_get (message_queue s) rid [] @ [m]))
   \<and> (map_of (active_connections s) rid = None \<longrightarrow>
      fst (send_message rid m s) = Inr False
      \<and> calls_since s (snd (send_message rid m s)) = []
      \<and> map_of (message_queue (snd (send_message rid m s))) rid
          = Some (dict_get (message_queue s) rid [] @ [m]))
   \<and> (map_of (active_connections s) rid = Some w \<and> raised s = None \<longrightarrow>
      fst (send_message rid m s) = Inr True
      \<and> calls_since s (snd (send_message rid m s))
          = [(Send_json w (heap (snd (send_message rid m s)) m), None)]
      \<and> message_queue (snd (send_message rid m s)) = message_queue s)
   \<and> map_of (heap (snd (send_message rid m s)) m) ''message_id''
       = Some (JInt (dict_get (message_counters s) rid 0 + 1))
   \<and> (\<exists>b. fst (send_message rid m s) = Inr b)"
  by (auto simp add: send_message_simps calls_since_def update_conv' split: option.splits exn.splits)

theorem send_message_failure_queues_witness:
  "(let s = snd (new_dict [(''type'', JStr ''progress'')]
              (snd (connect ''r1'' 7 ''u1'' 10 11 12 (init [None, None, Some WebSocketDisconnect]))))
    in map_of (active_connections s) ''r1'' = Some 7 \<and> raised s = Some WebSocketDisconnect
       \<and> fst (send_message ''r1'' 1 s) = Inr False
       \<and> map fst (calls_since s (snd (send_message ''r1'' 1 s)))
           = [Send_json 7 [(''type'', JStr ''progress''), (''message_id'', JInt 2)], Close 7]
       \<and> map_of (message_queue (snd (send_message ''r1'' 1 s))) ''r1'' = Some [1])
   \<and> (let s = snd (new_dict [(''type'', JStr ''progress'')] (init []))
       in map_of (active_connections s) ''r1'' = None
          \<and> fst (send_message ''r1'' 0 s) = Inr False
          \<and> map_of (message_queue (snd (send_message ''r1'' 0 s))) ''r1'' = Some [0])
   \<and> (let s = snd (new_dict [(''type'', JStr ''progress'')]
                 (snd (connect ''r1'' 7 ''u1'' 10 11 12 (init []))))
       in map_of (active_connections s) ''r1'' = Some 7 \<and> raised s = None
          \<and> fst (send_message ''r1'' 1 s) = Inr True
          \<and> message_queue (snd (send_message ''r1'' 1 s)) = message_queue s)"
proof -
  let ?s1 = "snd (new_dict [(''type'', JStr ''progress'')]
              (snd (connect ''r1'' 7 ''u1'' 10 11 12 (init [None, None, Some WebSocketDisconnect]))))"
  let ?s2 = "snd (new_dict [(''type'', JStr ''progress'')] (init []))"
  let ?s3 = "snd (new_dict [(''type'', JStr ''progress'')]
                 (snd (connect ''r1'' 7 ''u1'' 10 11 12 (init []))))"
  have h1: "map_of (active_connections ?s1) ''r1'' = Some 7 \<and> raised ?s1 = Some WebSocketDisconnect"
    by (simp add: run_simps)
  have h2: "map_of (active_connections ?s2) ''r1'' = None"
    by (simp add: run_simps)
  have h3: "map_of (active_connections ?s3) ''r1'' = Some 7 \<and> raised ?s3 = None"
    by (simp add: run_simps)
  have q: "dict_get (message_queue ?s1) ''r1'' [] = []" "dict_get (message_queue ?s2) ''r1'' [] = []"
    by (simp_all add: run_simps)
  have f: "heap (snd (send_message ''r1'' 1 ?s1)) 1 = [(''type'', JStr ''progress''), (''message_id'', JInt 2)]"
    by (simp add: run_simps)
  show ?thesis
    using h1 h2 h3 q f
      send_message_failure_queues [of ?s1 "''r1''" 7 WebSocketDisconnect 1]
      send_message_failure_queues [of ?s2 "''r1''" 7 WebSocketDisconnect 0]
      send_message_failure_queues [of ?s3 "''r1''" 7 WebSocketDisconnect 1]
    by (simp add: Let_def)
qed

section \<open>The example states\<close>

lemma broadcast_unconnected:
  "map_of (active_connections s) rid = None \<Longrightarrow>
   snd (broadcast_progress rid ty d now s) =
     s\<lparr>message_counters := AList.update rid (dict_get (message_counters s) rid 0 + 1) (message_counters s),
       heap := (heap s)(next_ref s := [(''type'', JStr ty), (''timestamp'', JIso now), (''data'', d),
           (''message_id'', JInt (dict_get (message_counters s) rid 0 + 1))]),
       next_ref := Suc (next_ref s),
       message_queue := AList.update rid (dict_get (message_queue s) rid [] @ [next_ref s]) (message_queue s)\<rparr>"
  by (simp add: broadcast_progress_def new_dict_def send_message_simps)

lemma five_queued_eq:
  "five_queued a fs conns =
    \<lparr>active_connections = conns, connection_metadata = [],
     message_queue = [(''r1'', [0, 1, 2, 3, 4])],
     last_ack = [(''r1'', max 0 a)], message_counters = [(''r1'', 5)],
     heap = (\<lambda>_. [])
       (0 := [(''type'', JStr ''test_message''), (''timestamp'', JIso 0), (''data'', JObj [(''index'', JInt 1)]), (''message_id'', JInt 1)],
        1 := [(''type'', JStr ''test_message''), (''timestamp'', JIso 0), (''data'', JObj [(''index'', JInt 2)]), (''message_id'', JInt 2)],
        2 := [(''type'', JStr ''test_message''), (''timestamp'', JIso 0), (''data'', JObj [(''index'', JInt 3)]), (''message_id'', JInt 3)],
        3 := [(''type'', JStr ''test_message''), (''timestamp'', JIso 0), (''data'', JObj [(''index'', JInt 4)]), (''message_id'', JInt 4)],
        4 := [(''type'', JStr ''test_message''), (''timestamp'', JIso 0), (''data'', JObj [(''index'', JInt 5)]), (''message_id'', JInt 5)]),
     next_ref = 5, wire = [], faults = fs\<rparr>"
  by (simp add: five_queued_def broadcast_unconnected acknowledge_message_def init_def eval_nat_numeral)

lemma five_queued_numbered: "numbered (five_queued a fs conns)"
  by (simp add: five_queued_eq numbered_def well_numbered_def seq_no_def)

lemma served_eq:
  "served =
    \<lparr>active_connections = [(''r1'', 7)],
     connection_metadata = [(''r1'', \<lparr>user_id = ''u1'', connected_at = 10, last_heartbeat = 11,
        reconnection_count = 0\<rparr>)],
     message_queue = [], last_ack = [(''r1'', 0)], message_counters = [(''r1'', 2)],
     heap = (\<lambda>_. [])
       (0 := [(''type'', JStr ''connection_established''), (''timestamp'', JIso 12),
              (''data'', JObj [(''request_id'', JStr ''r1''),
                 (''message'', JStr ''WebSocket connection established'')]),
              (''message_id'', JInt 1)],
        1 := [(''type'', JStr ''progress''), (''timestamp'', JIso 13),
              (''data'', JObj [(''x'', JInt 1)]), (''message_id'', JInt 2)]),
     next_ref = 2,
     wire = [(Accept 7, None),
        (Send_json 7 [(''type'', JStr ''connection_established''), (''timestamp'', JIso 12),
              (''data'', JObj [(''request_id'', JStr ''r1''),
                 (''message'', JStr ''WebSocket connection established'')]),
              (''message_id'', JInt 1)], None),
        (Send_json 7 [(''type'', JStr ''progress''), (''timestamp'', JIso 13),
              (''data'', JObj [(''x'', JInt 1)]), (''message_id'', JInt 2)], None)],
     faults = []\<rparr>"
  by (simp add: served_def broadcast_progress_def run_simps eval_nat_numeral)

lemma served_disconnected_two_sends:
  "snd (broadcast_progress ''r1'' ''progress'' (JObj [(''x'', JInt 3)]) 16
     (snd (broadcast_progress ''r1'' ''progress'' (JObj [(''x'', JInt 2)]) 15
        (snd (disconnect ''r1'' served))))) =
   served\<lparr>active_connections := [],
     message_queue := [(''r1'', [2, 3])],
     message_counters := [(''r1'', 4)],
     heap := (heap served)
       (2 := [(''type'', JStr ''progress''), (''timestamp'', JIso 15),
              (''data'', JObj [(''x'', JInt 2)]), (''message_id'', JInt 3)],
        3 := [(''type'', JStr ''progress''), (''timestamp'', JIso 16),
              (''data'', JObj [(''x'', JInt 3)]), (''message_id'', JInt 4)]),
     next_ref := 4,
     wire := wire served @ [(Close 7, None)]\<rparr>"
  by (simp add: served_eq disconnect_eq broadcast_unconnected raised_def)

text \<open>
  The scenario of the specification: the session is disconnected, two messages are sent
  and queued, and a second transport connects. Transport 7 is closed; transport 8 is
  accepted and receives \<^verbatim>\<open>connection_established\<close> with a new sequence number, then the
  two queued messages with the numbers they were given when sent.
\<close>

lemma reconnect_scenario:
  "map fst (calls_since served
       (snd (connect ''r1'' 8 ''u1'' 20 21 22
         (snd (broadcast_progress ''r1'' ''progress'' (JObj [(''x'', JInt 3)]) 16
           (snd (broadcast_progress ''r1'' ''progress'' (JObj [(''x'', JInt 2)]) 15
             (snd (disconnect ''r1'' served))))))))) =
     [Close 7, Accept 8,
      Send_json 8 (connection_established ''r1'' 22 @ [(''message_id'', JInt 5)]),
      Send_json 8 [(''type'', JStr ''progress''), (''timestamp'', JIso 15),
         (''data'', JObj [(''x'', JInt 2)]), (''message_id'', JInt 3)],
      Send_json 8 [(''type'', JStr ''progress''), (''timestamp'', JIso 16),
         (''data'', JObj [(''x'', JInt 3)]), (''message_id'', JInt 4)]]"
  unfolding served_disconnected_two_sends
  by (simp add: served_eq run_simps connection_established_def)

section \<open>Replay\<close>

lemma unacknowledged_comparable:
  "comparable msg \<Longrightarrow> unacknowledged msg a = Inr (seq_no msg > a)"
  by (simp add: unacknowledged_def comparable_def seq_no_def split: option.splits jval.splits)

lemma messages_to_replay_filter:
  "list_all (\<lambda>m. comparable (h m)) q \<Longrightarrow>
   messages_to_replay h a q = Inr (filter (\<lambda>m. seq_no (h m) > a) q)"
  by (induction q) (simp_all add: unacknowledged_comparable)

lemma bounded_id_comparable:
  "(case map_of msg ''message_id'' of Some (JInt n) \<Rightarrow> n \<le> c | _ \<Rightarrow> False) \<Longrightarrow> comparable msg"
  by (simp add: comparable_def split: option.splits jval.splits)

lemma replay_loop_live:
  "map_of (active_connections s) rid = Some w \<Longrightarrow>
   replay_loop rid ms s =
     s\<lparr>wire := wire s @ map (\<lambda>(m, f). (Send_json w (heap s m), f)) (attempts (faults s) ms),
       faults := drop (length (attempts (faults s) ms)) (faults s)\<rparr>"
proof (induction ms arbitrary: s)
  case Nil
  then show ?case by simp
next
  case (Cons m ms)
  show ?case
  proof (cases "faults s")
    case Nil
    with Cons.prems Cons.IH [of "s\<lparr>wire := wire s @ [(Send_json w (heap s m), None)], faults := []\<rparr>"]
    show ?thesis by (simp add: transport_eq raised_def)
  next
    case (Cons f fs)
    note fs = this
    show ?thesis
    proof (cases f)
      case None
      with fs Cons.prems Cons.IH [of "s\<lparr>wire := wire s @ [(Send_json w (heap s m), None)], faults := fs\<rparr>"]
      show ?thesis by (simp add: transport_eq raised_def)
    next
      case (Some e)
      with fs Cons.prems show ?thesis by (simp add: transport_eq raised_def)
    qed
  qed
qed

lemma replay_loop_dead:
  "map_of (active_connections s) rid = None \<Longrightarrow> replay_loop rid ms s = s"
  by (induction ms) simp_all

lemma attempts_prefix: "map fst (attempts fs ms) = take (length (attempts fs ms)) ms"
  by (induction fs ms rule: attempts.induct) simp_all

lemma attempts_no_fault: "attempts [] ms = map (\<lambda>m. (m, None)) ms"
  by (induction ms) simp_all

lemma attempts_butlast: "list_all (\<lambda>(m, f). f = None) (butlast (attempts fs ms))"
  by (induction fs ms rule: attempts.induct) (simp_all add: attempts_no_fault list_all_iff)

lemma numbered_queue:
  assumes "numbered s" and "map_of (message_queue s) rid = Some q"
  shows "list_all (\<lambda>m. comparable (heap s m)) q"
    and "sorted_wrt (\<lambda>a b. seq_no (heap s a) < seq_no (heap s b)) q"
proof -
  from assms(2) have "(rid, q) \<in> set (message_queue s)" by (rule map_of_SomeD)
  with assms(1) have *: "well_numbered (heap s) (next_ref s) (dict_get (message_counters s) rid 0) q"
    unfolding numbered_def list_all_iff by blast
  then show "sorted_wrt (\<lambda>a b. seq_no (heap s a) < seq_no (heap s b)) q"
    by (simp add: well_numbered_def)
  from * show "list_all (\<lambda>m. comparable (heap s m)) q"
    unfolding well_numbered_def list_all_iff using bounded_id_comparable by blast
qed

lemma replay_queued_messages_eq:
  assumes "map_of (message_queue s) rid = Some q" and "list_all (\<lambda>m. comparable (heap s m)) q"
  shows "replay_queued_messages rid s =
    (Inr (),
     if filter (\<lambda>m. seq_no (heap s m) > dict_get (last_ack s) rid 0) q \<noteq> []
     then (replay_loop rid (filter (\<lambda>m. seq_no (heap s m) > dict_get (last_ack s) rid 0) q) s)
            \<lparr>message_queue := AList.update rid []
               (message_queue (replay_loop rid (filter (\<lambda>m. seq_no (heap s m) > dict_get (last_ack s) rid 0) q) s))\<rparr>
     else s)"
  using assms by (simp add: replay_queued_messages_def Let_def messages_to_replay_filter)

lemma reachable_ascending:
  "reachable True s \<Longrightarrow> map_of (message_queue s) rid = Some q \<Longrightarrow> ascending (heap s) q"
  using numbered_queue [OF reachable_numbered] by (simp add: ascending_def)

lemma five_queued_ascending: "ascending (heap (five_queued a fs conns)) [0, 1, 2, 3, 4]"
  by (simp add: five_queued_eq ascending_def comparable_def seq_no_def)

lemma attempts_Nil_iff: "attempts fs ms = [] \<longleftrightarrow> ms = []"
  by (induction fs ms rule: attempts.induct) simp_all

lemma attempts_stop:
  "length (attempts fs ms) < length ms \<Longrightarrow> \<exists>e. snd (last (attempts fs ms)) = Some e"
  by (induction fs ms rule: attempts.induct) (auto simp add: attempts_no_fault attempts_Nil_iff)

text \<open>
  C2 (as the code has it). Take a session whose queued messages have numbers as ids (as
  they have in every state the manager gets into, by \<open>reachable_comparable\<close>). Replay
  raises nothing. When a transport is registered for the session, replay hands to that
  transport the queued messages whose sequence number is strictly greater than the
  acknowledgment mark, and no other; it takes them in the order of the queue, and it stops
  after the first call that raises and only then (every call before the last one made has
  returned). When no transport is registered it makes no call. The order of the queue is
  the ascending order of the sequence numbers when the queue is in that order, which it
  is as long as no dictionary is sent again while it is queued (\<open>reachable_ascending\<close>).
\<close>

theorem replay_transmits_unacknowledged:
  assumes "map_of (message_queue s) rid = Some q"
    and "list_all (\<lambda>m. comparable (heap s m)) q"
  shows "fst (replay_queued_messages rid s) = Inr ()
    \<and> (map_of (active_connections s) rid = Some w \<longrightarrow>
        calls_since s (snd (replay_queued_messages rid s))
          = map (\<lambda>(m, f). (Send_json w (heap s m), f))
              (attempts (faults s) (filter (\<lambda>m. seq_no (heap s m) > dict_get (last_ack s) rid 0) q)))
    \<and> (map_of (active_connections s) rid = None \<longrightarrow>
        calls_since s (snd (replay_queued_messages rid s)) = [])
    \<and> map fst (attempts (faults s) (filter (\<lambda>m. seq_no (heap s m) > dict_get (last_ack s) rid 0) q))
        = take (length (attempts (faults s) (filter (\<lambda>m. seq_no (heap s m) > dict_get (last_ack s) rid 0) q)))
            (filter (\<lambda>m. seq_no (heap s m) > dict_get (last_ack s) rid 0) q)
    \<and> list_all (\<lambda>(m, f). f = None)
        (butlast (attempts (faults s) (filter (\<lambda>m. seq_no (heap s m) > dict_get (last_ack s) rid 0) q)))
    \<and> (length (attempts (faults s) (filter (\<lambda>m. seq_no (heap s m) > dict_get (last_ack s) rid 0) q))
          < length (filter (\<lambda>m. seq_no (heap s m) > dict_get (last_ack s) rid 0) q) \<longrightarrow>
        (\<exists>e. snd (last (attempts (faults s) (filter (\<lambda>m. seq_no (heap s m) > dict_get (last_ack s) rid 0) q)))
           = Some e))
    \<and> (sorted_wrt (\<lambda>a b. seq_no (heap s a) < seq_no (heap s b)) q \<longrightarrow>
        sorted_wrt (<) (map (\<lambda>m. seq_no (heap s m))
          (filter (\<lambda>m. seq_no (heap s m) > dict_get (last_ack s) rid 0) q)))"
proof -
  let ?sel = "filter (\<lambda>m. seq_no (heap s m) > dict_get (last_ack s) rid 0) q"
  note comp = assms(2)
  have r: "fst (replay_queued_messages rid s) = Inr ()"
    by (simp add: replay_queued_messages_eq [OF assms(1) comp])
  have c: "calls_since s (snd (replay_queued_messages rid s))
        = map (\<lambda>(m, f). (Send_json w (heap s m), f)) (attempts (faults s) ?sel)"
    if "map_of (active_connections s) rid = Some w"
    by (simp add: replay_queued_messages_eq [OF assms(1) comp] replay_loop_live [OF that]
        calls_since_def)
  have d: "calls_since s (snd (replay_queued_messages rid s)) = []"
    if "map_of (active_connections s) rid = None"
    by (simp add: replay_queued_messages_eq [OF assms(1) comp] replay_loop_dead [OF that]
        calls_since_def)
  have a: "sorted_wrt (<) (map (\<lambda>m. seq_no (heap s m)) ?sel)"
    if "sorted_wrt (\<lambda>a b. seq_no (heap s a) < seq_no (heap s b)) q"
  proof -
    have "sorted_wrt (\<lambda>a b. seq_no (heap s a) < seq_no (heap s b)) ?sel"
      using that by (rule sorted_wrt_filter)
    then show ?thesis by (simp add: sorted_wrt_map)
  qed
  from r c d a show ?thesis
    using attempts_prefix [of "faults s" ?sel] attempts_butlast [of "faults s" ?sel]
      attempts_stop [of "faults s" ?sel]
    by simp
qed

theorem replay_transmits_unacknowledged_witness:
  "list_all (\<lambda>m. comparable (heap (five_queued 3 [] [(''r1'', 7)]) m)) [0, 1, 2, 3, 4]
   \<and> sorted_wrt (\<lambda>a b. seq_no (heap (five_queued 3 [] [(''r1'', 7)]) a)
        < seq_no (heap (five_queued 3 [] [(''r1'', 7)]) b)) [0, 1, 2, 3, 4]
   \<and> map_of (message_queue (five_queued 3 [] [(''r1'', 7)])) ''r1'' = Some [0, 1, 2, 3, 4]
   \<and> map (\<lambda>m. seq_no (heap (five_queued 3 [] [(''r1'', 7)]) m)) [0, 1, 2, 3, 4] = [1, 2, 3, 4, 5]
   \<and> dict_get (last_ack (five_queued 3 [] [(''r1'', 7)])) ''r1'' 0 = 3
   \<and> map_of (active_connections (five_queued 3 [] [(''r1'', 7)])) ''r1'' = Some 7
   \<and> map (\<lambda>(c, f). (call_ws c, case c of Send_json w m \<Rightarrow> seq_no m | _ \<Rightarrow> 0, f))
        (calls_since (five_queued 3 [] [(''r1'', 7)])
           (snd (replay_queued_messages ''r1'' (five_queued 3 [] [(''r1'', 7)]))))
       = [(7, 4, None), (7, 5, None)]
   \<and> sorted_wrt (<) (map (\<lambda>m. seq_no (heap (five_queued 3 [] [(''r1'', 7)]) m))
        (filter (\<lambda>m. seq_no (heap (five_queued 3 [] [(''r1'', 7)]) m)
           > dict_get (last_ack (five_queued 3 [] [(''r1'', 7)])) ''r1'' 0) [0, 1, 2, 3, 4]))
   \<and> map (\<lambda>(c, f). (call_ws c, case c of Send_json w m \<Rightarrow> seq_no m | _ \<Rightarrow> 0, f))
        (calls_since (five_queued 1 [None, Some TransportError] [(''r1'', 7)])
           (snd (replay_queued_messages ''r1'' (five_queued 1 [None, Some TransportError] [(''r1'', 7)]))))
       = [(7, 2, None), (7, 3, Some TransportError)]
   \<and> map_of (active_connections (five_queued 3 [] [])) ''r1'' = None
   \<and> calls_since (five_queued 3 [] []) (snd (replay_queued_messages ''r1'' (five_queued 3 [] []))) = []"
proof -
  let ?s = "five_queued 3 [] [(''r1'', 7)]"
  let ?t = "five_queued 1 [None, Some TransportError] [(''r1'', 7)]"
  let ?u = "five_queued 3 [] []"
  have q: "map_of (message_queue ?s) ''r1'' = Some [0, 1, 2, 3, 4]"
      "map_of (message_queue ?t) ''r1'' = Some [0, 1, 2, 3, 4]"
      "map_of (message_queue ?u) ''r1'' = Some [0, 1, 2, 3, 4]"
    by (simp_all add: five_queued_eq)
  have k: "list_all (\<lambda>m. comparable (heap (five_queued a fs conns) m)) [0, 1, 2, 3, 4]"
    and o: "sorted_wrt (\<lambda>x y. seq_no (heap (five_queued a fs conns) x)
        < seq_no (heap (five_queued a fs conns) y)) [0, 1, 2, 3, 4]" for a fs conns
    using five_queued_ascending [of a fs conns] by (simp_all add: ascending_def)
  have l: "map_of (active_connections ?s) ''r1'' = Some 7" "map_of (active_connections ?t) ''r1'' = Some 7"
      "map_of (active_connections ?u) ''r1'' = None"
    by (simp_all add: five_queued_eq)
  have ids: "map (\<lambda>m. seq_no (heap ?s m)) [0, 1, 2, 3, 4] = [1, 2, 3, 4, 5]"
      "dict_get (last_ack ?s) ''r1'' 0 = 3"
    by (simp_all add: five_queued_eq seq_no_def)
  note th = replay_transmits_unacknowledged [OF q(1) k, of 7]
  have "calls_since ?s (snd (replay_queued_messages ''r1'' ?s))
        = map (\<lambda>(m, f). (Send_json 7 (heap ?s m), f))
            (attempts (faults ?s) (filter (\<lambda>m. seq_no (heap ?s m) > dict_get (last_ack ?s) ''r1'' 0) [0, 1, 2, 3, 4]))"
    using th l(1) by blast
  then have a: "map (\<lambda>(c, f). (call_ws c, case c of Send_json w m \<Rightarrow> seq_no m | _ \<Rightarrow> 0, f))
        (calls_since ?s (snd (replay_queued_messages ''r1'' ?s))) = [(7, 4, None), (7, 5, None)]"
    by (simp add: five_queued_eq seq_no_def)
  have s: "sorted_wrt (<) (map (\<lambda>m. seq_no (heap ?s m))
        (filter (\<lambda>m. seq_no (heap ?s m) > dict_get (last_ack ?s) ''r1'' 0) [0, 1, 2, 3, 4]))"
    using th o [of 3 "[]" "[(''r1'', 7)]"] by blast
  have "calls_since ?t (snd (replay_queued_messages ''r1'' ?t))
        = map (\<lambda>(m, f). (Send_json 7 (heap ?t m), f))
            (attempts (faults ?t) (filter (\<lambda>m. seq_no (heap ?t m) > dict_get (last_ack ?t) ''r1'' 0) [0, 1, 2, 3, 4]))"
    using replay_transmits_unacknowledged [OF q(2) k, of 7] l(2) by blast
  then have b: "map (\<lambda>(c, f). (call_ws c, case c of Send_json w m \<Rightarrow> seq_no m | _ \<Rightarrow> 0, f))
        (calls_since ?t (snd (replay_queued_messages ''r1'' ?t))) = [(7, 2, None), (7, 3, Some TransportError)]"
    by (simp add: five_queued_eq seq_no_def)
  have c: "calls_since ?u (snd (replay_queued_messages ''r1'' ?u)) = []"
    using replay_transmits_unacknowledged [OF q(3) k, of 7] l(3) by blast
  from k [of 3 "[]" "[(''r1'', 7)]"] o [of 3 "[]" "[(''r1'', 7)]"] q(1) l(1,3) ids a s b c
  show ?thesis by blast
qed

text \<open>
  C2 as stated fails on the order: with a dictionary sent again while it was queued, the
  queue reads 3, 2, 3, and the replay that \<^verbatim>\<open>connect\<close> runs on the new transport sends,
  after \<^verbatim>\<open>connection_established\<close>, the messages in that order.
\<close>

theorem replay_sends_in_queue_order:
  "map_of (message_queue sent_again) ''r1'' = Some [0, 1, 0]
   \<and> map fst (wire (snd (connect ''r1'' 7 ''u1'' 10 11 12 sent_again)))
       = [Accept 7,
          Send_json 7 (connection_established ''r1'' 12 @ [(''message_id'', JInt 4)]),
          Send_json 7 [(''type'', JStr ''a''), (''message_id'', JInt 3)],
          Send_json 7 [(''type'', JStr ''b''), (''message_id'', JInt 2)],
          Send_json 7 [(''type'', JStr ''a''), (''message_id'', JInt 3)]]"
  by (simp add: sent_again_eq run_simps connection_established_def)

text \<open>
  C3 (as the code has it). When the queue of the session holds a message whose sequence
  number is strictly greater than the acknowledgment mark, the queue is empty after
  replay, whether or not a transport is registered and whatever the transport raises.
  When the mark filters out every queued message, replay changes nothing: the queue stays
  as it is.
\<close>

theorem replay_clears_queue:
  assumes "map_of (message_queue s) rid = Some q"
    and "list_all (\<lambda>m. comparable (heap s m)) q"
  shows "(filter (\<lambda>m. seq_no (heap s m) > dict_get (last_ack s) rid 0) q \<noteq> [] \<longrightarrow>
            map_of (message_queue (snd (replay_queued_messages rid s))) rid = Some [])
       \<and> (filter (\<lambda>m. seq_no (heap s m) > dict_get (last_ack s) rid 0) q = [] \<longrightarrow>
            snd (replay_queued_messages rid s) = s)"
  by (simp add: replay_queued_messages_eq [OF assms] update_conv')

theorem replay_clears_queue_witness:
  "map_of (message_queue (five_queued 3 [Some TransportError] [(''r1'', 7)])) ''r1'' = Some [0, 1, 2, 3, 4]
   \<and> map_of (message_queue (snd (replay_queued_messages ''r1''
         (five_queued 3 [Some TransportError] [(''r1'', 7)])))) ''r1'' = Some []
   \<and> map_of (message_queue (snd (replay_queued_messages ''r1'' (five_queued 3 [] [])))) ''r1'' = Some []
   \<and> snd (replay_queued_messages ''r1'' (five_queued 5 [] [(''r1'', 7)])) = five_queued 5 [] [(''r1'', 7)]"
proof -
  let ?s = "five_queued 3 [Some TransportError] [(''r1'', 7)]"
  let ?t = "five_queued 3 [] []"
  let ?u = "five_queued 5 [] [(''r1'', 7)]"
  have q: "map_of (message_queue ?s) ''r1'' = Some [0, 1, 2, 3, 4]"
      "map_of (message_queue ?t) ''r1'' = Some [0, 1, 2, 3, 4]"
      "map_of (message_queue ?u) ''r1'' = Some [0, 1, 2, 3, 4]"
    by (simp_all add: five_queued_eq)
  have c: "list_all (\<lambda>m. comparable (heap ?s m)) [0, 1, 2, 3, 4]"
      "list_all (\<lambda>m. comparable (heap ?t m)) [0, 1, 2, 3, 4]"
      "list_all (\<lambda>m. comparable (heap ?u m)) [0, 1, 2, 3, 4]"
    by (simp_all add: five_queued_eq comparable_def)
  have f: "filter (\<lambda>m. seq_no (heap ?s m) > dict_get (last_ack ?s) ''r1'' 0) [0, 1, 2, 3, 4] \<noteq> []"
      "filter (\<lambda>m. seq_no (heap ?t m) > dict_get (last_ack ?t) ''r1'' 0) [0, 1, 2, 3, 4] \<noteq> []"
      "filter (\<lambda>m. seq_no (heap ?u m) > dict_get (last_ack ?u) ''r1'' 0) [0, 1, 2, 3, 4] = []"
    by (simp_all add: five_queued_eq seq_no_def)
  show ?thesis
    using q(1) f replay_clears_queue [OF q(1) c(1)] replay_clears_queue [OF q(2) c(2)]
      replay_clears_queue [OF q(3) c(3)]
    by blast
qed

text \<open>
  C3 as stated fails: a message is sent with no transport and queued with number 1, the
  mark is set to 1, and after replay the message is still in the queue.
\<close>

theorem replay_keeps_acknowledged_queue:
  "map_of (message_queue (acknowledge_message ''r1'' 1 (snd (send_message ''r1'' 0
       (snd (new_dict [(''type'', JStr ''progress'')] (init [])))))))  ''r1'' = Some [0]
   \<and> map_of (message_queue (snd (replay_queued_messages ''r1''
       (acknowledge_message ''r1'' 1 (snd (send_message ''r1'' 0
          (snd (new_dict [(''type'', JStr ''progress'')] (init []))))))))) ''r1'' = Some [0]"
  by (simp add: run_simps)

section \<open>Connecting and disconnecting\<close>

lemma connect_queue_comparable:
  assumes "list_all (\<lambda>m. comparable (heap s m)) (dict_get (message_queue s) rid [])"
  shows "list_all (\<lambda>m. comparable (heap
            (snd (send_message rid (next_ref s)
               (snd (new_dict (connection_established rid t3) (registered rid w uid t1 t2 s))))) m))
          (dict_get (message_queue
            (snd (send_message rid (next_ref s)
               (snd (new_dict (connection_established rid t3) (registered rid w uid t1 t2 s)))))) rid [])"
proof -
  let ?s6 = "snd (new_dict (connection_established rid t3) (registered rid w uid t1 t2 s))"
  let ?s7 = "snd (send_message rid (next_ref s) ?s6)"
  have h: "\<And>m. comparable (heap s m) \<Longrightarrow> comparable (heap ?s7 m)"
    by (simp add: send_message_heap new_dict_def registered_def comparable_def update_conv')
  have n: "comparable (heap ?s7 (next_ref s))"
    by (simp add: send_message_heap new_dict_def registered_def comparable_def update_conv')
  have q6: "message_queue ?s6 = message_queue s" by (simp add: new_dict_def registered_def)
  from send_message_fields [of rid "next_ref s" ?s6]
  have "message_queue ?s7 = message_queue s
      \<or> message_queue ?s7 = AList.update rid (dict_get (message_queue s) rid [] @ [next_ref s]) (message_queue s)"
    by (simp add: q6)
  then show ?thesis
    using assms h n by (auto simp add: list_all_iff)
qed

lemma replay_returns_comparable:
  assumes "list_all (\<lambda>m. comparable (heap s m)) (dict_get (message_queue s) rid [])"
  shows "fst (replay_queued_messages rid s) = Inr ()"
proof (cases "map_of (message_queue s) rid")
  case None
  then show ?thesis by (simp add: replay_queued_messages_def)
next
  case (Some q)
  with assms have "list_all (\<lambda>m. comparable (heap s m)) q" by (simp add: dict_get_def)
  then show ?thesis by (simp add: replay_queued_messages_eq [OF Some])
qed

text \<open>
  C4 (as the code has it). \<^verbatim>\<open>disconnect\<close> never raises: a failure of \<^verbatim>\<open>close\<close> is
  logged and the transport unregistered all the same. \<^verbatim>\<open>connect\<close> logs and raises
  again what \<^verbatim>\<open>accept\<close> raises, and then registers nothing. Once \<^verbatim>\<open>accept\<close> has
  returned, \<^verbatim>\<open>connect\<close> raises nothing, whatever the calls of \<^verbatim>\<open>send_json\<close> and
  \<^verbatim>\<open>close\<close> that follow raise (the ids of the messages queued for the session being
  numbers, as \<^verbatim>\<open>send_message\<close> makes them).
\<close>

theorem connect_raises_only_accept:
  "fst (disconnect rid s) = Inr ()
   \<and> (raised s = Some e \<longrightarrow>
        fst (connect rid w uid t1 t2 t3 s) = Inl e
        \<and> active_connections (snd (connect rid w uid t1 t2 t3 s)) = active_connections s
        \<and> connection_metadata (snd (connect rid w uid t1 t2 t3 s)) = connection_metadata s)
   \<and> (raised s = None \<and> list_all (\<lambda>m. comparable (heap s m)) (dict_get (message_queue s) rid []) \<longrightarrow>
        fst (connect rid w uid t1 t2 t3 s) = Inr ())"
  by (simp add: disconnect_eq connect_raises connect_accepted replay_returns_comparable
      connect_queue_comparable)

theorem connect_raises_only_accept_witness:
  "raised (init [Some WebSocketDisconnect]) = Some WebSocketDisconnect
   \<and> fst (connect ''r1'' 7 ''u1'' 10 11 12 (init [Some WebSocketDisconnect])) = Inl WebSocketDisconnect
   \<and> active_connections (snd (connect ''r1'' 7 ''u1'' 10 11 12 (init [Some WebSocketDisconnect]))) = []
   \<and> raised (init [None, Some WebSocketDisconnect, Some TransportError]) = None
   \<and> dict_get (message_queue (init [None, Some WebSocketDisconnect, Some TransportError])) ''r1'' [] = []
   \<and> fst (connect ''r1'' 7 ''u1'' 10 11 12 (init [None, Some WebSocketDisconnect, Some TransportError])) = Inr ()
   \<and> map snd (wire (snd (connect ''r1'' 7 ''u1'' 10 11 12 (init [None, Some WebSocketDisconnect, Some TransportError]))))
       = [None, Some WebSocketDisconnect, Some TransportError]"
proof -
  have a: "raised (init [Some WebSocketDisconnect]) = Some WebSocketDisconnect"
    by (simp add: init_def raised_def)
  have b: "raised (init [None, Some WebSocketDisconnect, Some TransportError]) = None"
    by (simp add: init_def raised_def)
  have c: "active_connections (init [Some WebSocketDisconnect]) = []"
    by (simp add: init_def)
  have q: "dict_get (message_queue (init [None, Some WebSocketDisconnect, Some TransportError])) ''r1'' [] = []"
    by (simp add: init_def)
  have d: "map snd (wire (snd (connect ''r1'' 7 ''u1'' 10 11 12 (init [None, Some WebSocketDisconnect, Some TransportError]))))
       = [None, Some WebSocketDisconnect, Some TransportError]"
    by (simp add: run_simps)
  show ?thesis
    using a b c d q
      connect_raises_only_accept [of "''r1''" "init [Some WebSocketDisconnect]" WebSocketDisconnect 7 "''u1''" 10 11 12]
      connect_raises_only_accept [of "''r1''" "init [None, Some WebSocketDisconnect, Some TransportError]" WebSocketDisconnect 7 "''u1''" 10 11 12]
    by simp
qed

text \<open>
  C4 as stated fails for \<^verbatim>\<open>connect\<close>: when \<^verbatim>\<open>accept\<close> raises, \<^verbatim>\<open>connect\<close> raises.
\<close>

theorem connect_raises_accept_failure:
  "fst (connect ''r1'' 7 ''u1'' 10 11 12 (init [Some TransportError])) = Inl TransportError"
  by (simp add: connect_raises init_def raised_def)

lemma send_message_active:
  "active_connections (snd (send_message rid m s)) =
     (if map_of (active_connections s) rid \<noteq> None \<and> raised s \<noteq> None
      then AList.delete rid (active_connections s) else active_connections s)"
  by (auto simp add: send_message_simps split: option.splits exn.splits)

lemma send_message_calls:
  "\<exists>ext. wire (snd (send_message rid m s)) = wire s @ ext
     \<and> list_all (\<lambda>(c, f). map_of (active_connections s) rid = Some (call_ws c)) ext"
  by (auto simp add: send_message_simps split: option.splits exn.splits)

lemma replay_loop_calls:
  "\<exists>ext. wire (replay_loop rid ms s) = wire s @ ext
     \<and> list_all (\<lambda>(c, f). map_of (active_connections s) rid = Some (call_ws c)) ext"
proof (cases "map_of (active_connections s) rid")
  case None
  then show ?thesis by (simp add: replay_loop_dead)
next
  case (Some w)
  then show ?thesis by (simp add: replay_loop_live list_all_iff split_beta)
qed

lemma replay_calls:
  "\<exists>ext. wire (snd (replay_queued_messages rid s)) = wire s @ ext
     \<and> list_all (\<lambda>(c, f). map_of (active_connections s) rid = Some (call_ws c)) ext"
  using replay_loop_calls [of rid _ s]
  by (auto simp add: replay_queued_messages_def Let_def split: option.splits sum.splits)

text \<open>
  C7 (as the code has it). When \<^verbatim>\<open>accept\<close> returns, \<^verbatim>\<open>connect\<close> stores new metadata
  for the session, with \<^verbatim>\<open>connected_at\<close> and \<^verbatim>\<open>last_heartbeat\<close> at the readings of
  the clock and the reconnection count at 0, whatever the metadata was before; the session
  has the new transport as its one registered transport (or none, when sending
  \<^verbatim>\<open>connection_established\<close> on it failed); and every call \<^verbatim>\<open>connect\<close> makes is on
  the new transport: the transport registered before is replaced and not closed.
\<close>

theorem connect_replaces_transport:
  assumes "raised s = None"
  shows "map_of (connection_metadata (snd (connect rid w uid t1 t2 t3 s))) rid
           = Some \<lparr>user_id = uid, connected_at = t1, last_heartbeat = t2, reconnection_count = 0\<rparr>
    \<and> map_of (active_connections (snd (connect rid w uid t1 t2 t3 s))) rid
           = (if raised (s\<lparr>faults := tl (faults s)\<rparr>) = None then Some w else None)
    \<and> list_all (\<lambda>(c, f). call_ws c = w) (calls_since s (snd (connect rid w uid t1 t2 t3 s)))"
proof -
  let ?s5 = "registered rid w uid t1 t2 s"
  let ?s6 = "snd (new_dict (connection_established rid t3) ?s5)"
  let ?s7 = "snd (send_message rid (next_ref s) ?s6)"
  let ?s' = "snd (connect rid w uid t1 t2 t3 s)"
  have c: "?s' = snd (replay_queued_messages rid ?s7)"
    by (simp add: connect_accepted [OF assms])
  have a6: "map_of (active_connections ?s6) rid = Some w"
    by (simp add: new_dict_def registered_def update_conv')
  have r6: "raised ?s6 = raised (s\<lparr>faults := tl (faults s)\<rparr>)"
    by (simp add: new_dict_def registered_def raised_def)
  have md: "connection_metadata ?s' = connection_metadata ?s5"
    using replay_fields [of rid ?s7] send_message_fields [of rid "next_ref s" ?s6]
    by (simp add: c new_dict_def)
  have a7: "map_of (active_connections ?s7) rid
      = (if raised (s\<lparr>faults := tl (faults s)\<rparr>) = None then Some w else None)"
    using a6 r6 by (simp add: send_message_active delete_conv')
  have act: "active_connections ?s' = active_connections ?s7"
    using replay_fields [of rid ?s7] by (simp add: c)
  obtain ext1 where e1: "wire ?s7 = wire ?s6 @ ext1"
      "list_all (\<lambda>(c, f). map_of (active_connections ?s6) rid = Some (call_ws c)) ext1"
    using send_message_calls [of rid "next_ref s" ?s6] by blast
  obtain ext2 where e2: "wire ?s' = wire ?s7 @ ext2"
      "list_all (\<lambda>(c, f). map_of (active_connections ?s7) rid = Some (call_ws c)) ext2"
    using replay_calls [of rid ?s7] unfolding c by blast
  have w6: "wire ?s6 = wire s @ [(Accept w, None)]"
    by (simp add: new_dict_def registered_def)
  have "calls_since s ?s' = (Accept w, None) # ext1 @ ext2"
    using e1(1) e2(1) w6 by (simp add: calls_since_def)
  moreover have "list_all (\<lambda>(c, f). call_ws c = w) ext1"
    using e1(2) a6 by (auto simp add: list_all_iff)
  moreover have "list_all (\<lambda>(c, f). call_ws c = w) ext2"
    using e2(2) a7 by (auto simp add: list_all_iff split: if_splits)
  ultimately have calls: "list_all (\<lambda>(c, f). call_ws c = w) (calls_since s ?s')"
    by simp
  from md act a7 calls show ?thesis
    by (simp add: registered_def update_conv')
qed

theorem connect_replaces_transport_witness:
  "raised (snd (connect ''r1'' 1 ''u1'' 10 11 12 (init []))) = None
   \<and> map_of (active_connections (snd (connect ''r1'' 1 ''u1'' 10 11 12 (init [])))) ''r1'' = Some 1
   \<and> map_of (connection_metadata
        (snd (connect ''r1'' 2 ''u1'' 20 21 22 (snd (connect ''r1'' 1 ''u1'' 10 11 12 (init [])))))) ''r1''
       = Some \<lparr>user_id = ''u1'', connected_at = 20, last_heartbeat = 21, reconnection_count = 0\<rparr>
   \<and> map_of (active_connections
        (snd (connect ''r1'' 2 ''u1'' 20 21 22 (snd (connect ''r1'' 1 ''u1'' 10 11 12 (init [])))))) ''r1''
       = Some 2
   \<and> list_all (\<lambda>(c, f). call_ws c = 2)
        (calls_since (snd (connect ''r1'' 1 ''u1'' 10 11 12 (init [])))
           (snd (connect ''r1'' 2 ''u1'' 20 21 22 (snd (connect ''r1'' 1 ''u1'' 10 11 12 (init []))))))"
proof -
  let ?s1 = "snd (connect ''r1'' 1 ''u1'' 10 11 12 (init []))"
  have r: "raised ?s1 = None" by (simp add: run_simps)
  have a: "map_of (active_connections ?s1) ''r1'' = Some 1" by (simp add: run_simps)
  have t: "raised (?s1\<lparr>faults := tl (faults ?s1)\<rparr>) = None" by (simp add: run_simps)
  from connect_replaces_transport [OF r, of "''r1''" 2 "''u1''" 20 21 22] r a t
  show ?thesis by simp
qed

text \<open>
  C7 as stated fails: a second \<^verbatim>\<open>connect\<close> for a session whose transport 1 is
  registered calls \<^verbatim>\<open>accept\<close> and \<^verbatim>\<open>send_json\<close> on transport 2 and never
  \<^verbatim>\<open>close\<close> on transport 1, and the reconnection count stays at 0.
\<close>

theorem connect_again_leaves_old_transport:
  "map_of (active_connections (snd (connect ''r1'' 1 ''u1'' 10 11 12 (init [])))) ''r1'' = Some 1
   \<and> map_of (connection_metadata (snd (connect ''r1'' 1 ''u1'' 10 11 12 (init [])))) ''r1''
       = Some \<lparr>user_id = ''u1'', connected_at = 10, last_heartbeat = 11, reconnection_count = 0\<rparr>
   \<and> map fst (wire (snd (connect ''r1'' 2 ''u1'' 20 21 22
         (snd (connect ''r1'' 1 ''u1'' 10 11 12 (init []))))))
       = [Accept 1, Send_json 1 (connection_established ''r1'' 12 @ [(''message_id'', JInt 1)]),
          Accept 2, Send_json 2 (connection_established ''r1'' 22 @ [(''message_id'', JInt 2)])]
   \<and> map_of (connection_metadata
        (snd (connect ''r1'' 2 ''u1'' 20 21 22 (snd (connect ''r1'' 1 ''u1'' 10 11 12 (init [])))))) ''r1''
       = Some \<lparr>user_id = ''u1'', connected_at = 20, last_heartbeat = 21, reconnection_count = 0\<rparr>"
  by (simp add: run_simps connection_established_def)

section \<open>Cleanup\<close>

lemma update_absent: "\<not> has_key d k \<Longrightarrow> AList.update k v d = d @ [(k, v)]"
  by (induction d) (auto simp add: has_key_def)

lemma fold_remove_request_lookup:
  "map_of (connection_metadata (fold remove_request rids s)) r
     = (if r \<in> set rids then None else map_of (connection_metadata s) r)
   \<and> map_of (message_queue (fold remove_request rids s)) r
     = (if r \<in> set rids then None else map_of (message_queue s) r)
   \<and> map_of (last_ack (fold remove_request rids s)) r
     = (if r \<in> set rids then None else map_of (last_ack s) r)
   \<and> map_of (message_counters (fold remove_request rids s)) r
     = (if r \<in> set rids then None else map_of (message_counters s) r)"
  by (induction rids arbitrary: s) (simp_all add: remove_request_eq delete_conv')

lemma fold_remove_request_rest:
  "active_connections (fold remove_request rids s) = active_connections s
   \<and> heap (fold remove_request rids s) = heap s
   \<and> next_ref (fold remove_request rids s) = next_ref s
   \<and> wire (fold remove_request rids s) = wire s
   \<and> faults (fold remove_request rids s) = faults s"
  by (induction rids arbitrary: s) (simp_all add: remove_request_eq)

lemma timedelta_hours_in_range:
  "- 23999999976 \<le> h \<Longrightarrow> h \<le> 23999999999 \<Longrightarrow> timedelta_hours h = Inr (h * 3600000000)"
  by (simp add: timedelta_hours_def) presburger

lemma timedelta_hours_out_of_range:
  "h < - 23999999976 \<or> 23999999999 < h \<Longrightarrow> timedelta_hours h = Inl OverflowError"
  by (simp add: timedelta_hours_def) presburger

lemma cleanup_raises:
  "timedelta_hours h = Inl e \<Longrightarrow> cleanup_old_data h now s = (Inl e, s)"
  by (simp add: cleanup_old_data_def)

lemma cleanup_returns:
  "timedelta_hours h = Inr max_age \<Longrightarrow>
   cleanup_old_data h now s = (Inr (), fold remove_request (request_ids_to_remove max_age now s) s)"
  by (simp add: cleanup_old_data_def)

lemma to_remove_member:
  assumes "map_of (connection_metadata s) rid = Some md"
    and "\<not> has_key (active_connections s) rid"
    and "now - connected_at md > max_age"
  shows "rid \<in> set (request_ids_to_remove max_age now s)"
proof -
  from assms(1) have "(rid, md) \<in> set (connection_metadata s)" by (rule map_of_SomeD)
  with assms(2,3) show ?thesis
    by (force simp add: request_ids_to_remove_def)
qed

lemma cleanup_removes:
  assumes "map_of (connection_metadata s) rid = Some md"
    and "\<not> has_key (active_connections s) rid"
    and "timedelta_hours h = Inr max_age"
    and "now - connected_at md > max_age"
  shows "\<not> has_key (connection_metadata (snd (cleanup_old_data h now s))) rid"
    and "\<not> has_key (message_queue (snd (cleanup_old_data h now s))) rid"
    and "\<not> has_key (last_ack (snd (cleanup_old_data h now s))) rid"
    and "\<not> has_key (message_counters (snd (cleanup_old_data h now s))) rid"
    and "active_connections (snd (cleanup_old_data h now s)) = active_connections s"
    and "fst (cleanup_old_data h now s) = Inr ()"
  using to_remove_member [OF assms(1,2,4)]
    fold_remove_request_lookup [of "request_ids_to_remove max_age now s" s rid]
    fold_remove_request_rest [of "request_ids_to_remove max_age now s" s]
  by (simp_all add: cleanup_returns [OF assms(3)] has_key_def)

text \<open>
  A session that had metadata and has none after \<^verbatim>\<open>cleanup_old_data\<close> is one the
  cleanup removed: the call returned, and the session has no counter either.
\<close>

lemma cleanup_removed:
  assumes "has_key (connection_metadata s) rid"
    and "\<not> has_key (connection_metadata (snd (cleanup_old_data h now s))) rid"
  shows "fst (cleanup_old_data h now s) = Inr ()"
    and "\<not> has_key (message_queue (snd (cleanup_old_data h now s))) rid"
    and "\<not> has_key (last_ack (snd (cleanup_old_data h now s))) rid"
    and "\<not> has_key (message_counters (snd (cleanup_old_data h now s))) rid"
proof -
  obtain max_age where t: "timedelta_hours h = Inr max_age"
    using assms by (cases "timedelta_hours h") (auto simp add: cleanup_raises)
  have "rid \<in> set (request_ids_to_remove max_age now s)"
    using assms fold_remove_request_lookup [of "request_ids_to_remove max_age now s" s rid]
    by (auto simp add: cleanup_returns [OF t] has_key_def split: if_splits)
  then show "fst (cleanup_old_data h now s) = Inr ()"
    and "\<not> has_key (message_queue (snd (cleanup_old_data h now s))) rid"
    and "\<not> has_key (last_ack (snd (cleanup_old_data h now s))) rid"
    and "\<not> has_key (message_counters (snd (cleanup_old_data h now s))) rid"
    using fold_remove_request_lookup [of "request_ids_to_remove max_age now s" s rid]
    by (simp_all add: cleanup_returns [OF t] has_key_def)
qed

lemmas cleanup_simps = cleanup_old_data_def request_ids_to_remove_def remove_request_eq
  timedelta_hours_def disconnect_eq acknowledge_message_def

text \<open>
  C8 (as the code has it). For a session that has metadata, \<^verbatim>\<open>disconnect\<close> and then
  \<^verbatim>\<open>cleanup_old_data(0)\<close>, at a reading of the clock later than \<^verbatim>\<open>connected_at\<close>,
  leave the session with no transport, no metadata, no queue, no acknowledgment mark and
  no counter, and the cleanup raises nothing. \<^verbatim>\<open>acknowledge_message\<close> for that session
  then raises nothing, and it is not a no-op: it records a mark for the session again, the
  maximum of 0 and the acknowledged id.
\<close>

theorem cleanup_after_disconnect:
  assumes "map_of (connection_metadata s) rid = Some md" and "connected_at md < now"
  shows "fst (cleanup_old_data 0 now (snd (disconnect rid s))) = Inr ()
    \<and> \<not> has_key (active_connections (snd (cleanup_old_data 0 now (snd (disconnect rid s))))) rid
    \<and> \<not> has_key (connection_metadata (snd (cleanup_old_data 0 now (snd (disconnect rid s))))) rid
    \<and> \<not> has_key (message_queue (snd (cleanup_old_data 0 now (snd (disconnect rid s))))) rid
    \<and> \<not> has_key (last_ack (snd (cleanup_old_data 0 now (snd (disconnect rid s))))) rid
    \<and> \<not> has_key (message_counters (snd (cleanup_old_data 0 now (snd (disconnect rid s))))) rid
    \<and> acknowledge_message rid mid (snd (cleanup_old_data 0 now (snd (disconnect rid s))))
        = (snd (cleanup_old_data 0 now (snd (disconnect rid s))))
            \<lparr>last_ack := last_ack (snd (cleanup_old_data 0 now (snd (disconnect rid s))))
               @ [(rid, max 0 mid)]\<rparr>"
proof -
  let ?s1 = "snd (disconnect rid s)"
  let ?s2 = "snd (cleanup_old_data 0 now ?s1)"
  have m: "map_of (connection_metadata ?s1) rid = Some md"
    using assms(1) by (simp add: disconnect_eq split: option.splits)
  have a: "\<not> has_key (active_connections ?s1) rid"
    by (simp add: disconnect_eq has_key_def delete_conv' split: option.splits)
  have z: "timedelta_hours 0 = Inr 0"
    by (simp add: timedelta_hours_def)
  have t: "now - connected_at md > 0"
    using assms(2) by simp
  note r = cleanup_removes [OF m a z t]
  from r(3) have "acknowledge_message rid mid ?s2 = ?s2\<lparr>last_ack := last_ack ?s2 @ [(rid, max 0 mid)]\<rparr>"
    by (simp add: acknowledge_message_def update_absent dict_get_absent)
  with r a show ?thesis by simp
qed

theorem cleanup_after_disconnect_witness:
  "map_of (connection_metadata served) ''r1''
     = Some \<lparr>user_id = ''u1'', connected_at = 10, last_heartbeat = 11, reconnection_count = 0\<rparr>
   \<and> dict_get (message_counters served) ''r1'' 0 = 2
   \<and> fst (cleanup_old_data 0 14 (snd (disconnect ''r1'' served))) = Inr ()
   \<and> \<not> has_key (connection_metadata (snd (cleanup_old_data 0 14 (snd (disconnect ''r1'' served))))) ''r1''
   \<and> \<not> has_key (message_queue (snd (cleanup_old_data 0 14 (snd (disconnect ''r1'' served))))) ''r1''
   \<and> \<not> has_key (last_ack (snd (cleanup_old_data 0 14 (snd (disconnect ''r1'' served))))) ''r1''
   \<and> \<not> has_key (message_counters (snd (cleanup_old_data 0 14 (snd (disconnect ''r1'' served))))) ''r1''
   \<and> last_ack (acknowledge_message ''r1'' (- 4)
         (snd (cleanup_old_data 0 14 (snd (disconnect ''r1'' served)))))
       = last_ack (snd (cleanup_old_data 0 14 (snd (disconnect ''r1'' served)))) @ [(''r1'', 0)]"
proof -
  let ?md = "\<lparr>user_id = ''u1'', connected_at = 10, last_heartbeat = 11, reconnection_count = 0\<rparr>"
  have m: "map_of (connection_metadata served) ''r1'' = Some ?md"
    and c: "dict_get (message_counters served) ''r1'' 0 = 2"
    by (simp_all add: served_eq)
  have t: "connected_at ?md < 14" by simp
  from cleanup_after_disconnect [OF m t, of "- 4"] m c show ?thesis
    by simp
qed

text \<open>
  C8 as stated fails: after the cleanup the manager has no acknowledgment mark, and after
  an acknowledgment of id 5 for the removed session it has the mark 5 for it.
\<close>

theorem acknowledge_after_cleanup_changes_state:
  "last_ack (snd (cleanup_old_data 0 14 (snd (disconnect ''r1'' served)))) = []
   \<and> last_ack (acknowledge_message ''r1'' 5
        (snd (cleanup_old_data 0 14 (snd (disconnect ''r1'' served)))))
       = [(''r1'', 5)]"
  by (simp add: served_eq cleanup_simps)

text \<open>
  C10. A session whose state cleanup has removed (it had metadata before the call and has
  none after it) has no counter any more, and the next \<^verbatim>\<open>send_message\<close> for the same
  id numbers its message 1, whatever the counter was before. Cleanup removes the session
  when it has metadata and no transport, the maximum age is one \<^verbatim>\<open>timedelta\<close> accepts,
  and the session is older than it; when \<^verbatim>\<open>timedelta\<close> refuses the maximum age, cleanup
  raises OverflowError and removes nothing.
\<close>

theorem send_after_cleanup_restarts:
  "(has_key (connection_metadata s) rid
      \<and> \<not> has_key (connection_metadata (snd (cleanup_old_data h now s))) rid \<longrightarrow>
      fst (cleanup_old_data h now s) = Inr ()
      \<and> \<not> has_key (message_counters (snd (cleanup_old_data h now s))) rid
      \<and> map_of (heap (snd (send_message rid m (snd (cleanup_old_data h now s)))) m) ''message_id''
          = Some (JInt 1)
      \<and> dict_get (message_counters (snd (send_message rid m (snd (cleanup_old_data h now s))))) rid 0
          = 1)
   \<and> (map_of (connection_metadata s) rid = Some md \<and> \<not> has_key (active_connections s) rid
      \<and> - 23999999976 \<le> h \<and> h \<le> 23999999999 \<and> now - connected_at md > h * 3600000000 \<longrightarrow>
      has_key (connection_metadata s) rid
      \<and> \<not> has_key (connection_metadata (snd (cleanup_old_data h now s))) rid)
   \<and> (h < - 23999999976 \<or> 23999999999 < h \<longrightarrow>
      cleanup_old_data h now s = (Inl OverflowError, s))"
proof -
  have a: "fst (cleanup_old_data h now s) = Inr ()
      \<and> \<not> has_key (message_counters (snd (cleanup_old_data h now s))) rid
      \<and> map_of (heap (snd (send_message rid m (snd (cleanup_old_data h now s)))) m) ''message_id''
          = Some (JInt 1)
      \<and> dict_get (message_counters (snd (send_message rid m (snd (cleanup_old_data h now s))))) rid 0
          = 1"
    if "has_key (connection_metadata s) rid"
      and "\<not> has_key (connection_metadata (snd (cleanup_old_data h now s))) rid"
    using cleanup_removed(1,4) [OF that]
    by (simp add: send_message_heap send_message_counters dict_get_absent update_conv')
  have b: "has_key (connection_metadata s) rid
      \<and> \<not> has_key (connection_metadata (snd (cleanup_old_data h now s))) rid"
    if "map_of (connection_metadata s) rid = Some md" and "\<not> has_key (active_connections s) rid"
      and "- 23999999976 \<le> h" and "h \<le> 23999999999" and "now - connected_at md > h * 3600000000"
    using cleanup_removes(1) [OF that(1,2) timedelta_hours_in_range [OF that(3,4)] that(5)] that(1)
    by (simp add: has_key_def)
  have c: "cleanup_old_data h now s = (Inl OverflowError, s)"
    if "h < - 23999999976 \<or> 23999999999 < h"
    using timedelta_hours_out_of_range [OF that] by (simp add: cleanup_raises)
  from a b c show ?thesis by blast
qed

theorem send_after_cleanup_restarts_witness:
  "map_of (connection_metadata (snd (disconnect ''r1'' served))) ''r1''
     = Some \<lparr>user_id = ''u1'', connected_at = 10, last_heartbeat = 11, reconnection_count = 0\<rparr>
   \<and> \<not> has_key (active_connections (snd (disconnect ''r1'' served))) ''r1''
   \<and> (90000000010 :: int) - 10 > 24 * 3600000000
   \<and> has_key (connection_metadata (snd (disconnect ''r1'' served))) ''r1''
   \<and> \<not> has_key (connection_metadata
         (snd (cleanup_old_data 24 90000000010 (snd (disconnect ''r1'' served))))) ''r1''
   \<and> dict_get (message_counters (snd (disconnect ''r1'' served))) ''r1'' 0 = 2
   \<and> map_of (heap (snd (disconnect ''r1'' served)) 1) ''message_id'' = Some (JInt 2)
   \<and> map_of (heap (snd (send_message ''r1'' 1
         (snd (cleanup_old_data 24 90000000010 (snd (disconnect ''r1'' served)))))) 1) ''message_id''
       = Some (JInt 1)
   \<and> cleanup_old_data (- 24000000000) 90000000010 (snd (disconnect ''r1'' served))
       = (Inl OverflowError, snd (disconnect ''r1'' served))"
proof -
  let ?md = "\<lparr>user_id = ''u1'', connected_at = 10, last_heartbeat = 11, reconnection_count = 0\<rparr>"
  let ?s = "snd (disconnect ''r1'' served)"
  have m: "map_of (connection_metadata ?s) ''r1'' = Some ?md"
    and a: "\<not> has_key (active_connections ?s) ''r1''"
    and c: "dict_get (message_counters ?s) ''r1'' 0 = 2"
    and i: "map_of (heap ?s 1) ''message_id'' = Some (JInt 2)"
    by (simp_all add: served_eq disconnect_eq)
  have t: "(90000000010 :: int) - connected_at ?md > 24 * 3600000000"
    by simp
  have o: "(- 24000000000 :: int) < - 23999999976 \<or> 23999999999 < (- 24000000000 :: int)"
    by simp
  from send_after_cleanup_restarts [of ?s "''r1''" 24 90000000010 1 ?md]
    send_after_cleanup_restarts [of ?s "''r1''" "- 24000000000" 90000000010 1 ?md]
    m a c i t o
  show ?thesis by simp
qed

section \<open>Heartbeats\<close>

lemma heartbeat_call_mono: "set ts \<subseteq> set ts' \<Longrightarrow> heartbeat_call ts x \<Longrightarrow> heartbeat_call ts' x"
  by (cases x) (auto simp add: heartbeat_call_def split: call.splits intro!: imageI)

lemma heartbeat_one_fst: "fst (heartbeat_one t rid s) = Inr ()"
  by (simp add: heartbeat_one_def transport_eq disconnect_eq split: option.splits exn.splits)

lemma heartbeat_one_calls:
  "\<exists>ext. wire (snd (heartbeat_one t rid s)) = wire s @ ext \<and> list_all (heartbeat_call [t]) ext"
  by (simp add: heartbeat_one_def transport_eq disconnect_eq heartbeat_call_def
      split: option.splits exn.splits)

lemma heartbeat_for_calls:
  "\<exists>ext. wire (snd (heartbeat_for t rids s)) = wire s @ ext \<and> list_all (heartbeat_call [t]) ext"
proof (induction rids arbitrary: s)
  case Nil
  show ?case by simp
next
  case (Cons rid rids)
  obtain e1 where e1: "wire (snd (heartbeat_one t rid s)) = wire s @ e1" "list_all (heartbeat_call [t]) e1"
    using heartbeat_one_calls by blast
  obtain e2 where e2: "wire (snd (heartbeat_for t rids (snd (heartbeat_one t rid s))))
      = wire (snd (heartbeat_one t rid s)) @ e2" "list_all (heartbeat_call [t]) e2"
    using Cons.IH by blast
  have "heartbeat_for t (rid # rids) s = heartbeat_for t rids (snd (heartbeat_one t rid s))"
    using heartbeat_one_fst [of t rid s] by (cases "heartbeat_one t rid s") auto
  with e1 e2 show ?case by simp
qed

lemma heartbeat_round_calls:
  "\<exists>ext. wire (heartbeat_round t s) = wire s @ ext \<and> list_all (heartbeat_call [t]) ext"
proof -
  have "heartbeat_round t s = snd (heartbeat_for t (map fst (active_connections s)) s)"
    by (cases "heartbeat_for t (map fst (active_connections s)) s")
      (auto simp add: heartbeat_round_def split: sum.splits)
  with heartbeat_for_calls [of t "map fst (active_connections s)" s] show ?thesis by simp
qed

lemma heartbeat_loop_calls:
  "\<exists>ext. wire (heartbeat_loop ts s) = wire s @ ext \<and> list_all (heartbeat_call ts) ext"
proof (induction ts arbitrary: s)
  case Nil
  show ?case by simp
next
  case (Cons t ts)
  obtain e1 where e1: "wire (heartbeat_round t s) = wire s @ e1" "list_all (heartbeat_call [t]) e1"
    using heartbeat_round_calls by blast
  obtain e2 where e2: "wire (heartbeat_loop ts (heartbeat_round t s)) = wire (heartbeat_round t s) @ e2"
      "list_all (heartbeat_call ts) e2"
    using Cons.IH by blast
  from e1(2) have "list_all (heartbeat_call (t # ts)) e1"
    unfolding list_all_iff using heartbeat_call_mono [of "[t]" "t # ts"] by auto
  moreover from e2(2) have "list_all (heartbeat_call (t # ts)) e2"
    unfolding list_all_iff using heartbeat_call_mono [of ts "t # ts"] by auto
  ultimately show ?case using e1(1) e2(1) by simp
qed

text \<open>
  C9. However many rounds the heartbeat loop runs, it leaves the sequence counters, the
  queues, the message dictionaries and the acknowledgment marks as they were; on a
  transport it only sends heartbeat frames and closes; a heartbeat frame has no
  \<^verbatim>\<open>message_id\<close>. For a session with metadata, a heartbeat not older than five
  minutes and a transport that takes the frame, the visit of the loop sends the frame on
  that transport and changes nothing but \<^verbatim>\<open>last_heartbeat\<close>, set to the reading of the
  clock. Nothing of this reaches a replay, which sends what the queue holds.
\<close>

theorem heartbeat_bypasses_sequence:
  "message_counters (heartbeat_loop ts s) = message_counters s
   \<and> message_queue (heartbeat_loop ts s) = message_queue s
   \<and> heap (heartbeat_loop ts s) = heap s
   \<and> last_ack (heartbeat_loop ts s) = last_ack s
   \<and> list_all (heartbeat_call ts) (calls_since s (heartbeat_loop ts s))
   \<and> map_of (heartbeat_frame t) ''message_id'' = None
   \<and> (map_of (connection_metadata s) rid = Some md \<and> \<not> t - last_heartbeat md > timedelta_minutes 5
        \<and> map_of (active_connections s) rid = Some w \<and> raised s = None \<longrightarrow>
       heartbeat_one t rid s = (Inr (),
         s\<lparr>wire := wire s @ [(Send_json w (heartbeat_frame t), None)], faults := tl (faults s),
           connection_metadata := AList.update rid (md\<lparr>last_heartbeat := t\<rparr>) (connection_metadata s)\<rparr>))"
proof -
  obtain ext where "wire (heartbeat_loop ts s) = wire s @ ext" "list_all (heartbeat_call ts) ext"
    using heartbeat_loop_calls by blast
  then have "list_all (heartbeat_call ts) (calls_since s (heartbeat_loop ts s))"
    by (simp add: calls_since_def)
  then show ?thesis
    using heartbeat_loop_fields [of ts s]
    by (simp add: heartbeat_frame_def heartbeat_one_def transport_eq)
qed

theorem heartbeat_bypasses_sequence_witness:
  "map_of (connection_metadata served) ''r1''
      = Some \<lparr>user_id = ''u1'', connected_at = 10, last_heartbeat = 11, reconnection_count = 0\<rparr>
   \<and> \<not> 30000011 - 11 > timedelta_minutes 5
   \<and> map_of (active_connections served) ''r1'' = Some 7
   \<and> raised served = None
   \<and> heartbeat_loop [30000011] served
       = served\<lparr>wire := wire served @ [(Send_json 7 (heartbeat_frame 30000011), None)],
           faults := [],
           connection_metadata := [(''r1'', \<lparr>user_id = ''u1'', connected_at = 10,
              last_heartbeat = 30000011, reconnection_count = 0\<rparr>)]\<rparr>
   \<and> message_counters (heartbeat_loop [30000011] served) = [(''r1'', 2)]
   \<and> message_queue (heartbeat_loop [30000011] served) = []"
proof -
  let ?md = "\<lparr>user_id = ''u1'', connected_at = 10, last_heartbeat = 11, reconnection_count = 0\<rparr>"
  have m: "map_of (connection_metadata served) ''r1'' = Some ?md"
    and a: "map_of (active_connections served) ''r1'' = Some 7"
    and r: "raised served = None"
    and c: "message_counters served = [(''r1'', 2)]" "message_queue served = []"
      "map fst (active_connections served) = [''r1'']" "faults served = []"
      "connection_metadata served = [(''r1'', ?md)]"
    by (simp_all add: served_eq raised_def)
  have t: "\<not> 30000011 - last_heartbeat ?md > timedelta_minutes 5"
    by (simp add: timedelta_minutes_def)
  from heartbeat_bypasses_sequence [of "[30000011]" served 30000011 "''r1''" ?md 7] m a r t
  have "heartbeat_one 30000011 ''r1'' served = (Inr (),
         served\<lparr>wire := wire served @ [(Send_json 7 (heartbeat_frame 30000011), None)],
           faults := tl (faults served),
           connection_metadata := AList.update ''r1'' (?md\<lparr>last_heartbeat := 30000011\<rparr>)
             (connection_metadata served)\<rparr>)"
    and "message_counters (heartbeat_loop [30000011] served) = message_counters served"
    and "message_queue (heartbeat_loop [30000011] served) = message_queue served"
    by simp_all
  with m a r t c show ?thesis
    by (simp add: heartbeat_round_def)
qed

section \<open>Sequence numbers\<close>

lemma connect_counters:
  "dict_get (message_counters (snd (connect rid' w uid t1 t2 t3 s))) rid 0
     = dict_get (message_counters s) rid 0 + (if rid' = rid \<and> raised s = None then 1 else 0)"
proof (cases "raised s")
  case None
  have "message_counters (snd (connect rid' w uid t1 t2 t3 s))
      = AList.update rid' (dict_get (message_counters (registered rid' w uid t1 t2 s)) rid' 0 + 1)
          (message_counters (registered rid' w uid t1 t2 s))"
    using replay_fields [of rid' "snd (send_message rid' (next_ref s)
          (snd (new_dict (connection_established rid' t3) (registered rid' w uid t1 t2 s))))"]
    by (simp add: connect_accepted [OF None] send_message_counters new_dict_def)
  then show ?thesis
    using None by (simp add: registered_def dict_get_setdefault dict_get_absent)
next
  case (Some e)
  then show ?thesis by (simp add: connect_raises)
qed

text \<open>
  C1. Whatever happens to the message (delivered, queued after the transport failed,
  queued for want of a transport), \<^verbatim>\<open>send_message\<close> moves the counter of the session
  up by one and writes the new value into the message as its id. The first call of a
  session, in the initial state, gives 1; a call right after another gives one more than
  that one gave. Between two calls for a session its counter stays where it is: a
  \<^verbatim>\<open>send_message\<close> for another session, \<^verbatim>\<open>disconnect\<close>, replay, an acknowledgment
  and the heartbeat loop do not touch it, and \<^verbatim>\<open>connect\<close> moves it by the one
  \<^verbatim>\<open>send_message\<close> it makes for the session once the transport is accepted.
\<close>

theorem send_message_sequence:
  "dict_get (message_counters (snd (send_message rid m s))) rid 0 = dict_get (message_counters s) rid 0 + 1
   \<and> map_of (heap (snd (send_message rid m s)) m) ''message_id''
       = Some (JInt (dict_get (message_counters s) rid 0 + 1))
   \<and> map_of (heap (snd (send_message rid m (init fs))) m) ''message_id'' = Some (JInt 1)
   \<and> map_of (heap (snd (send_message rid m' (snd (send_message rid m s)))) m') ''message_id''
       = Some (JInt (dict_get (message_counters s) rid 0 + 2))
   \<and> dict_get (message_counters (snd (send_message rid' m s))) rid 0
       = dict_get (message_counters s) rid 0 + (if rid' = rid then 1 else 0)
   \<and> dict_get (message_counters (snd (connect rid' w uid t1 t2 t3 s))) rid 0
       = dict_get (message_counters s) rid 0 + (if rid' = rid \<and> raised s = None then 1 else 0)
   \<and> message_counters (snd (disconnect rid' s)) = message_counters s
   \<and> message_counters (snd (replay_queued_messages rid' s)) = message_counters s
   \<and> message_counters (acknowledge_message rid' mid s) = message_counters s
   \<and> message_counters (heartbeat_loop ts s) = message_counters s"
  using replay_fields [of rid' s] heartbeat_loop_fields [of ts s]
  by (simp add: send_message_counters send_message_heap update_conv' init_def connect_counters
      disconnect_eq acknowledge_message_def split: option.splits)

theorem send_message_sequence_witness:
  "map (\<lambda>m. map_of (heap (five_queued 0 [] []) m) ''message_id'') [0, 1, 2, 3, 4]
     = [Some (JInt 1), Some (JInt 2), Some (JInt 3), Some (JInt 4), Some (JInt 5)]
   \<and> dict_get (message_counters (five_queued 0 [] [])) ''r1'' 0 = 5
   \<and> map_of (heap (snd (send_message ''r1'' 0 (five_queued 0 [] []))) 0) ''message_id'' = Some (JInt 6)"
  using send_message_sequence [of "''r1''" 0 "five_queued 0 [] []"]
  by (simp add: five_queued_eq)

section \<open>Acknowledgments\<close>

text \<open>
  C5. \<^verbatim>\<open>acknowledge_message\<close> sets the high-water mark of the session to the maximum
  of its value (0 when the session has none) and the acknowledged id, and leaves the marks
  of the other sessions alone. The mark never goes down; acknowledging the same id twice
  is acknowledging it once; two acknowledgments give the same mark in either order; and
  acknowledging 3 and then 2 leaves the mark at 3.
\<close>

theorem acknowledge_message_max:
  "dict_get (last_ack (acknowledge_message rid mid s)) rid' 0
      = (if rid' = rid then max (dict_get (last_ack s) rid 0) mid else dict_get (last_ack s) rid' 0)
   \<and> dict_get (last_ack s) rid 0 \<le> dict_get (last_ack (acknowledge_message rid mid s)) rid 0
   \<and> acknowledge_message rid mid (acknowledge_message rid mid s) = acknowledge_message rid mid s
   \<and> dict_get (last_ack (acknowledge_message rid b (acknowledge_message rid a s))) rid 0
      = dict_get (last_ack (acknowledge_message rid a (acknowledge_message rid b s))) rid 0
   \<and> dict_get (last_ack (acknowledge_message rid 2 (acknowledge_message rid 3 (init fs)))) rid 0 = 3"
  by (simp add: acknowledge_message_def init_def max.left_commute max.commute)

end
